theory Spec2Isabelle
  imports Main "HOL-Library.Sublist"
begin

section \<open>Strings and integers of the source language\<close>

text \<open>
  A Python \<open>str\<close> is a sequence of Unicode code points, and \<open>len\<close>, \<open>enumerate\<close> and
  \<open>ord\<close> work on code points. A string is therefore a list of code points; \<open>ascii\<close>
  embeds an ASCII literal. Python integers are unbounded: \<open>int\<close>.
\<close>

type_synonym ustring = "nat list"

definition ascii :: "string \<Rightarrow> ustring" where
  "ascii s = map of_char s"

text \<open>\<open>str(n)\<close> and \<open>f'{n}'\<close> for an integer: decimal digits, a minus sign when negative.\<close>

fun str_nat :: "nat \<Rightarrow> ustring" where
  "str_nat n = (if n < 10 then [48 + n] else str_nat (n div 10) @ [48 + n mod 10])"

declare str_nat.simps [simp del]

definition str_int :: "int \<Rightarrow> ustring" where
  "str_int i = (if i < 0 then 45 # str_nat (nat (- i)) else str_nat (nat i))"

text \<open>
  \<open>int(x / y)\<close> and \<open>int(x * 0.85)\<close> truncate toward zero. The source computes them in
  floating point; for the magnitudes of layout units (far below \<open>2^53\<close>) the result is the
  truncated exact quotient, which is what the model computes.
\<close>

definition trunc_div :: "int \<Rightarrow> int \<Rightarrow> int" where
  "trunc_div a b = sgn a * sgn b * (\<bar>a\<bar> div \<bar>b\<bar>)"

section \<open>Inline text extraction\<close>

text \<open>
  The inline nodes of the document tree, one constructor for each tag \<open>extract_text\<close>
  dispatches on, with the payload it reads (\<open>c\<close>, \<open>c[1]\<close>, and for \<open>Quoted\<close> the tag of
  \<open>c[0]\<close> and \<open>c[1]\<close>). \<open>OtherInline\<close> stands for any tag without a branch.
\<close>

datatype inline =
    Str ustring
  | Space
  | SoftBreak
  | LineBreak
  | Strong "inline list"
  | Emph "inline list"
  | Strikeout "inline list"
  | Superscript "inline list"
  | Subscript "inline list"
  | SmallCaps "inline list"
  | Underline "inline list"
  | Code ustring
  | Link "inline list"
  | Image_inl "inline list"
  | Quoted string "inline list"
  | Cite "inline list"
  | Math ustring
  | Span "inline list"
  | OtherInline string

definition open_quote :: "string \<Rightarrow> ustring" where
  "open_quote quote_type = (if quote_type = ''DoubleQuote'' then [0x201C] else [0x2018])"

definition close_quote :: "string \<Rightarrow> ustring" where
  "close_quote quote_type = (if quote_type = ''DoubleQuote'' then [0x201D] else [0x2019])"

fun extract_text :: "inline list \<Rightarrow> ustring"
  and extract_inline :: "inline \<Rightarrow> ustring" where
  "extract_text [] = []"
| "extract_text (inl # inlines) = extract_inline inl @ extract_text inlines"
| "extract_inline (Str c) = c"
| "extract_inline Space = ascii '' ''"
| "extract_inline SoftBreak = ascii '' ''"
| "extract_inline LineBreak = [10]"
| "extract_inline (Strong c) = extract_text c"
| "extract_inline (Emph c) = extract_text c"
| "extract_inline (Strikeout c) = extract_text c"
| "extract_inline (Superscript c) = extract_text c"
| "extract_inline (Subscript c) = extract_text c"
| "extract_inline (SmallCaps c) = extract_text c"
| "extract_inline (Underline c) = extract_text c"
| "extract_inline (Code c) = c"
| "extract_inline (Link c) = extract_text c"
| "extract_inline (Image_inl c) = extract_text c"
| "extract_inline (Quoted quote_type c) =
     open_quote quote_type @ extract_text c @ close_quote quote_type"
| "extract_inline (Cite c) = extract_text c"
| "extract_inline (Math c) = c"
| "extract_inline (Span c) = extract_text c"
| "extract_inline (OtherInline t) = []"

section \<open>Line segments\<close>

record lineseg =
  textpos :: nat
  vertpos :: int
  vertsize :: int
  textheight :: int
  baseline :: int
  spacing :: int
  horzpos :: int
  horzsize :: int
  flags :: int

text \<open>
  The scanning loop of \<open>compute_lineseg_xml\<close>: \<open>i\<close> is the index of the character at the
  head of the remaining text, \<open>n\<close> is \<open>len(text)\<close>, and \<open>current_width\<close> and \<open>line_starts\<close>
  are the loop's two variables.
\<close>

fun scan_chars :: "int \<Rightarrow> int \<Rightarrow> nat \<Rightarrow> ustring \<Rightarrow> nat \<Rightarrow> int \<Rightarrow> nat list \<Rightarrow> nat list" where
  "scan_chars char_height hsize n [] i current_width line_starts = line_starts"
| "scan_chars char_height hsize n (ch # rest) i current_width line_starts =
     (let current_width' =
            (if ch > 0x2000 then current_width + char_height
             else current_width + char_height div 2)
      in if current_width' > hsize \<and> i + 1 < n
         then scan_chars char_height hsize n rest (i + 1) 0 (line_starts @ [i + 1])
         else scan_chars char_height hsize n rest (i + 1) current_width' line_starts)"

definition line_starts_of :: "ustring \<Rightarrow> int \<Rightarrow> int \<Rightarrow> nat list" where
  "line_starts_of text char_height hsize =
     scan_chars char_height hsize (length text) text 0 0 [0]"

definition seg_flags :: "nat \<Rightarrow> nat \<Rightarrow> int" where
  "seg_flags num_lines idx =
     (if num_lines = 1 then 393216
      else if idx = 0 then 131072
      else if idx = num_lines - 1 then 262144
      else 0)"

definition compute_linesegs :: "ustring \<Rightarrow> int \<Rightarrow> int \<Rightarrow> int \<Rightarrow> lineseg list" where
  "compute_linesegs text char_height line_spacing_pct hsize =
     (let vsize = char_height;
          spc = trunc_div (char_height * (line_spacing_pct - 100)) 100;
          line_height = vsize + spc;
          bline = trunc_div (char_height * 85) 100
      in if text = []
         then [\<lparr>textpos = 0, vertpos = 0, vertsize = vsize, textheight = vsize,
                 baseline = bline, spacing = spc, horzpos = 0, horzsize = hsize,
                 flags = 393216\<rparr>]
         else let starts = line_starts_of text char_height hsize;
                  num_lines = length starts
              in map (\<lambda>(idx, tpos).
                       \<lparr>textpos = tpos, vertpos = int idx * line_height, vertsize = vsize,
                        textheight = vsize, baseline = bline, spacing = spc, horzpos = 0,
                        horzsize = hsize, flags = seg_flags num_lines idx\<rparr>)
                     (enumerate 0 starts))"

definition lineseg_xml :: "lineseg \<Rightarrow> ustring" where
  \<open>lineseg_xml s =
     ascii ''<hp:lineseg textpos="'' @ str_nat (textpos s) @
     ascii ''" vertpos="'' @ str_int (vertpos s) @
     ascii ''" vertsize="'' @ str_int (vertsize s) @
     ascii ''" textheight="'' @ str_int (textheight s) @
     ascii ''" baseline="'' @ str_int (baseline s) @
     ascii ''" spacing="'' @ str_int (spacing s) @
     ascii ''" horzpos="'' @ str_int (horzpos s) @
     ascii ''" horzsize="'' @ str_int (horzsize s) @
     ascii ''" flags="'' @ str_int (flags s) @ ascii ''"/>''\<close>

definition compute_lineseg_xml :: "ustring \<Rightarrow> int \<Rightarrow> int \<Rightarrow> int \<Rightarrow> ustring" where
  "compute_lineseg_xml text char_height line_spacing_pct hsize =
     ascii ''<hp:linesegarray>'' @
     concat (map lineseg_xml (compute_linesegs text char_height line_spacing_pct hsize)) @
     ascii ''</hp:linesegarray>''"

definition PAGE_TEXT_WIDTH :: int where "PAGE_TEXT_WIDTH = 42520"
definition CHAR_HEIGHT_NORMAL :: int where "CHAR_HEIGHT_NORMAL = 1000"
definition LINE_SPACING_PCT :: int where "LINE_SPACING_PCT = 160"

text \<open>
  The wrapping rule in the words of the specification, as a recursion over the remaining
  text: \<open>off\<close> is the offset of the character at the head and \<open>w\<close> the accumulated width.
  \<open>wrap_points_stated\<close> opens the new line at the current character's offset, as the
  specification puts it; \<open>wrap_points\<close> opens it at the offset of the next character.
\<close>

definition char_width :: "int \<Rightarrow> nat \<Rightarrow> int" where
  "char_width char_height ch = (if ch > 0x2000 then char_height else char_height div 2)"

fun wrap_points_stated :: "int \<Rightarrow> int \<Rightarrow> nat \<Rightarrow> int \<Rightarrow> ustring \<Rightarrow> nat list" where
  "wrap_points_stated char_height page_width off w [] = []"
| "wrap_points_stated char_height page_width off w (ch # rest) =
     (if w + char_width char_height ch > page_width \<and> rest \<noteq> []
      then off # wrap_points_stated char_height page_width (off + 1) 0 rest
      else wrap_points_stated char_height page_width (off + 1)
             (w + char_width char_height ch) rest)"

fun wrap_points :: "int \<Rightarrow> int \<Rightarrow> nat \<Rightarrow> int \<Rightarrow> ustring \<Rightarrow> nat list" where
  "wrap_points char_height page_width off w [] = []"
| "wrap_points char_height page_width off w (ch # rest) =
     (if w + char_width char_height ch > page_width \<and> rest \<noteq> []
      then (off + 1) # wrap_points char_height page_width (off + 1) 0 rest
      else wrap_points char_height page_width (off + 1)
             (w + char_width char_height ch) rest)"

section \<open>Textual substitution\<close>

text \<open>
  \<open>re.sub(pattern, repl, s)\<close> and \<open>s.replace(old, new)\<close> scan the string from the left;
  at each position they try the pattern, and on a match they emit the replacement and
  go on after the match, otherwise they emit the character and move one position on.
  None of the patterns of the source matches the empty string. A pattern is given as a
  matcher: on the text at the current position it returns the replacement and the
  length of the match. The first argument of \<open>scan_sub\<close> after the matcher counts the
  characters of a match that are still to be skipped.
\<close>

fun scan_sub :: "(ustring \<Rightarrow> (ustring \<times> nat) option) \<Rightarrow> nat \<Rightarrow> ustring \<Rightarrow> ustring" where
  "scan_sub m k [] = []"
| "scan_sub m (Suc k) (c # cs) = scan_sub m k cs"
| "scan_sub m 0 (c # cs) =
     (case m (c # cs) of
        Some (repl, len) \<Rightarrow> repl @ scan_sub m (len - 1) cs
      | None \<Rightarrow> c # scan_sub m 0 cs)"

definition re_sub :: "(ustring \<Rightarrow> (ustring \<times> nat) option) \<Rightarrow> ustring \<Rightarrow> ustring" where
  "re_sub m s = scan_sub m 0 s"

text \<open>A literal at the current position: the text after it.\<close>

definition lit :: "ustring \<Rightarrow> ustring \<Rightarrow> ustring option" where
  "lit l s = (if prefix l s then Some (drop (length l) s) else None)"

text \<open>\<open>s.replace(old, new)\<close> for a non-empty \<open>old\<close>.\<close>

definition m_literal :: "ustring \<Rightarrow> ustring \<Rightarrow> ustring \<Rightarrow> (ustring \<times> nat) option" where
  "m_literal old new s = (if prefix old s then Some (new, length old) else None)"

definition str_replace :: "ustring \<Rightarrow> ustring \<Rightarrow> ustring \<Rightarrow> ustring" where
  "str_replace old new s = re_sub (m_literal old new) s"

text \<open>\<open>s.replace(old, new, 1)\<close> for a non-empty \<open>old\<close>: the first occurrence only.\<close>

fun replace_first :: "ustring \<Rightarrow> ustring \<Rightarrow> ustring \<Rightarrow> ustring" where
  "replace_first old new [] = []"
| "replace_first old new (c # cs) =
     (if prefix old (c # cs) then new @ drop (length old) (c # cs)
      else c # replace_first old new cs)"

text \<open>
  The regular expression \<open>([^x]*)x\<close> for a character \<open>x\<close>: the group and the text
  after \<open>x\<close>. The group cannot end before the first \<open>x\<close> (the next character would not
  be \<open>x\<close>) nor go beyond it, so there is no backtracking.
\<close>

definition upto_char :: "nat \<Rightarrow> ustring \<Rightarrow> (ustring \<times> ustring) option" where
  "upto_char x s =
     (case dropWhile (\<lambda>c. c \<noteq> x) s of
        [] \<Rightarrow> None
      | _ # rest \<Rightarrow> Some (takeWhile (\<lambda>c. c \<noteq> x) s, rest))"

text \<open>
  The characters \<open>str.strip()\<close> removes and \<open>\s\<close> matches in a \<open>str\<close> pattern: the
  code points for which \<open>str.isspace\<close> holds.
\<close>

definition py_isspace :: "nat \<Rightarrow> bool" where
  "py_isspace c \<longleftrightarrow>
     (9 \<le> c \<and> c \<le> 13) \<or> (28 \<le> c \<and> c \<le> 32) \<or> c = 0x85 \<or> c = 0xA0 \<or> c = 0x1680
     \<or> (0x2000 \<le> c \<and> c \<le> 0x200A) \<or> c = 0x2028 \<or> c = 0x2029 \<or> c = 0x202F
     \<or> c = 0x205F \<or> c = 0x3000"

definition strip_chars :: "(nat \<Rightarrow> bool) \<Rightarrow> ustring \<Rightarrow> ustring" where
  "strip_chars P s = rev (dropWhile P (rev (dropWhile P s)))"

section \<open>Math transliteration\<close>

definition backslash :: nat where "backslash = 92"

text \<open>The pattern \<open>\\frac\{([^}]*)\}\{([^}]*)\}\<close> with replacement \<open>{\1} over {\2}\<close>.\<close>

definition m_frac :: "ustring \<Rightarrow> (ustring \<times> nat) option" where
  "m_frac s =
     (case lit (backslash # ascii ''frac{'') s of None \<Rightarrow> None | Some s1 \<Rightarrow>
     (case upto_char 125 s1 of None \<Rightarrow> None | Some (g1, s2) \<Rightarrow>
     (case lit (ascii ''{'') s2 of None \<Rightarrow> None | Some s3 \<Rightarrow>
     (case upto_char 125 s3 of None \<Rightarrow> None | Some (g2, s4) \<Rightarrow>
        Some (ascii ''{'' @ g1 @ ascii ''} over {'' @ g2 @ ascii ''}'',
              length s - length s4)))))"

text \<open>
  The patterns \<open>\\sum_\{([^}]*)\}\^\{([^}]*)\}\<close> and \<open>\\int_\{([^}]*)\}\^\{([^}]*)\}\<close>
  with replacement \<open>op from{\1} to{\2}\<close>, for \<open>op\<close> the word \<open>sum\<close> or \<open>int\<close>.
\<close>

definition m_from_to :: "string \<Rightarrow> ustring \<Rightarrow> (ustring \<times> nat) option" where
  "m_from_to op s =
     (case lit (backslash # ascii op @ ascii ''_{'') s of None \<Rightarrow> None | Some s1 \<Rightarrow>
     (case upto_char 125 s1 of None \<Rightarrow> None | Some (g1, s2) \<Rightarrow>
     (case lit (ascii ''^{'') s2 of None \<Rightarrow> None | Some s3 \<Rightarrow>
     (case upto_char 125 s3 of None \<Rightarrow> None | Some (g2, s4) \<Rightarrow>
        Some (ascii op @ ascii '' from{'' @ g1 @ ascii ''} to{'' @ g2 @ ascii ''}'',
              length s - length s4)))))"

text \<open>The pattern \<open>\\sqrt\{([^}]*)\}\<close> with replacement \<open>sqrt{\1}\<close>.\<close>

definition m_sqrt :: "ustring \<Rightarrow> (ustring \<times> nat) option" where
  "m_sqrt s =
     (case lit (backslash # ascii ''sqrt{'') s of None \<Rightarrow> None | Some s1 \<Rightarrow>
     (case upto_char 125 s1 of None \<Rightarrow> None | Some (g1, s2) \<Rightarrow>
        Some (ascii ''sqrt{'' @ g1 @ ascii ''}'', length s - length s2)))"

text \<open>The pattern \<open>\\([a-zA-Z]+)\<close> with replacement \<open>\1\<close>.\<close>

definition ascii_letter :: "nat \<Rightarrow> bool" where
  "ascii_letter c \<longleftrightarrow> (97 \<le> c \<and> c \<le> 122) \<or> (65 \<le> c \<and> c \<le> 90)"

definition m_command :: "ustring \<Rightarrow> (ustring \<times> nat) option" where
  "m_command s =
     (case s of
        [] \<Rightarrow> None
      | c # cs \<Rightarrow>
          if c = backslash \<and> takeWhile ascii_letter cs \<noteq> []
          then Some (takeWhile ascii_letter cs, 1 + length (takeWhile ascii_letter cs))
          else None)"

definition SYMBOL_TABLE :: "(ustring \<times> ustring) list" where
  "SYMBOL_TABLE =
     [(backslash # ascii ''geq'', ascii ''>=''),
      (backslash # ascii ''leq'', ascii ''<=''),
      (backslash # ascii ''times'', ascii ''times''),
      (backslash # ascii ''cdot'', ascii ''cdot''),
      (backslash # ascii ''infty'', ascii ''inf''),
      (backslash # ascii ''pm'', ascii ''+-'')]"

text \<open>The loop \<open>for cmd, repl in [...]: s = s.replace(cmd, repl)\<close>.\<close>

definition replace_symbols :: "ustring \<Rightarrow> ustring" where
  "replace_symbols s = foldl (\<lambda>acc (cmd, repl). str_replace cmd repl acc) s SYMBOL_TABLE"

definition latex_to_hwp_script :: "ustring \<Rightarrow> ustring" where
  "latex_to_hwp_script latex =
     (let s = strip_chars (\<lambda>c. c = 36) (strip_chars py_isspace latex);
          s = re_sub m_frac s;
          s = re_sub (m_from_to ''sum'') s;
          s = re_sub (m_from_to ''int'') s;
          s = re_sub m_sqrt s;
          s = str_replace (backslash # ascii ''right)'') (ascii ''right)'')
                (str_replace (backslash # ascii ''left('') (ascii ''left('') s);
          s = replace_symbols s;
          s = re_sub m_command s
      in s)"

section \<open>Paragraph, equation and table markup\<close>

text \<open>
  The paragraph id counter is the global \<open>_para_id_counter\<close>; every function that calls
  \<open>next_para_id\<close> takes the counter and returns the new one.
\<close>

definition initial_para_id_counter :: nat where
  "initial_para_id_counter = 3121190098"

definition next_para_id :: "nat \<Rightarrow> ustring \<times> nat" where
  "next_para_id counter = (str_nat (counter + 1), counter + 1)"

text \<open>
  \<open>xml.sax.saxutils.escape\<close>: the ampersand first, then the two angle brackets.
\<close>

definition xml_escape :: "ustring \<Rightarrow> ustring" where
  "xml_escape data =
     str_replace (ascii ''<'') (ascii ''&lt;'')
       (str_replace (ascii ''>'') (ascii ''&gt;'')
          (str_replace (ascii ''&'') (ascii ''&amp;'') data))"

definition CHAR_HEIGHT_MAP :: "int \<Rightarrow> int option" where
  "CHAR_HEIGHT_MAP = [0 \<mapsto> 1000, 7 \<mapsto> 2200, 8 \<mapsto> 1600, 9 \<mapsto> 1300, 10 \<mapsto> 1000]"

text \<open>The f-string of \<open>make_paragraph_xml\<close>.\<close>

definition paragraph_markup ::
  "ustring \<Rightarrow> int \<Rightarrow> int \<Rightarrow> int \<Rightarrow> ustring \<Rightarrow> ustring \<Rightarrow> ustring" where
  \<open>paragraph_markup pid para_pr_id style_id char_pr_id safe_text lineseg =
     ascii ''<hp:p id="'' @
     pid @
     ascii ''" paraPrIDRef="'' @
     str_int para_pr_id @
     ascii ''" styleIDRef="'' @
     str_int style_id @
     ascii ''" pageBreak="0" columnBreak="0" merged="0"><hp:run charPrIDRef="'' @
     str_int char_pr_id @
     ascii ''"><hp:t>'' @
     safe_text @
     ascii ''</hp:t></hp:run>'' @
     lineseg @
     ascii ''</hp:p>''\<close>

definition make_paragraph_xml :: "ustring \<Rightarrow> int \<Rightarrow> int \<Rightarrow> int \<Rightarrow> nat \<Rightarrow> ustring \<times> nat" where
  "make_paragraph_xml text style_id para_pr_id char_pr_id counter =
     (let (pid, counter') = next_para_id counter;
          safe_text = (if text \<noteq> [] then xml_escape text else []);
          char_height = (case CHAR_HEIGHT_MAP char_pr_id of
                           Some h \<Rightarrow> h | None \<Rightarrow> CHAR_HEIGHT_NORMAL);
          lineseg = compute_lineseg_xml text char_height LINE_SPACING_PCT PAGE_TEXT_WIDTH
      in (paragraph_markup pid para_pr_id style_id char_pr_id safe_text lineseg, counter'))"

definition equation_markup :: "ustring \<Rightarrow> ustring \<Rightarrow> ustring" where
  \<open>equation_markup pid safe_script =
     ascii ''<hp:p id="'' @
     pid @
     ascii ''" paraPrIDRef="0" styleIDRef="0" pageBreak="0" columnBreak="0" m'' @
     ascii ''erged="0"><hp:run charPrIDRef="0"><hp:equation version="eqEdit" '' @
     ascii ''baseLine="0" textColor="#000000" baseUnit="1000" lineMode="0" fo'' @
     ascii ''nt=""><hp:script>'' @
     safe_script @
     ascii ''</hp:script></hp:equation></hp:run><hp:linesegarray><hp:lineseg '' @
     ascii ''textpos="0" vertpos="0" vertsize="1600" textheight="1600" baseli'' @
     ascii ''ne="1360" spacing="400" horzpos="0" horzsize="42520" flags="3932'' @
     ascii ''16"/></hp:linesegarray></hp:p>''\<close>

definition make_equation_paragraph_xml :: "ustring \<Rightarrow> nat \<Rightarrow> ustring \<times> nat" where
  "make_equation_paragraph_xml latex_str counter =
     (let (pid, counter') = next_para_id counter;
          script = latex_to_hwp_script latex_str;
          safe_script = xml_escape script
      in (equation_markup pid safe_script, counter'))"

definition TABLE_BORDER_FILL_ID :: int where "TABLE_BORDER_FILL_ID = 3"

definition table_open_markup ::
  "ustring \<Rightarrow> ustring \<Rightarrow> nat \<Rightarrow> nat \<Rightarrow> int \<Rightarrow> int \<Rightarrow> ustring" where
  \<open>table_open_markup pid tbl_id row_cnt col_count page_width total_height =
     ascii ''<hp:p id="'' @
     pid @
     ascii ''" paraPrIDRef="0" styleIDRef="0" pageBreak="0" columnBreak="0" m'' @
     ascii ''erged="0"><hp:run charPrIDRef="0"><hp:tbl id="'' @
     tbl_id @
     ascii ''" zOrder="0" numberingType="TABLE" textWrap="TOP_AND_BOTTOM" tex'' @
     ascii ''tFlow="BOTH_SIDES" lock="0" dropcapstyle="None" pageBreak="CELL"'' @
     ascii '' repeatHeader="0" rowCnt="'' @
     str_nat row_cnt @
     ascii ''" colCnt="'' @
     str_nat col_count @
     ascii ''" cellSpacing="0" borderFillIDRef="'' @
     str_int TABLE_BORDER_FILL_ID @
     ascii ''" noAdjust="0"><hp:sz width="'' @
     str_int page_width @
     ascii ''" widthRelTo="ABSOLUTE" height="'' @
     str_int total_height @
     ascii ''" heightRelTo="ABSOLUTE" protect="0"/><hp:pos treatAsChar="1" af'' @
     ascii ''fectLSpacing="0" flowWithText="1" allowOverlap="0" holdAnchorAnd'' @
     ascii ''SO="0" vertRelTo="PARA" horzRelTo="COLUMN" vertAlign="TOP" horzA'' @
     ascii ''lign="CENTER" vertOffset="0" horzOffset="0"/><hp:outMargin left='' @
     ascii ''"0" right="0" top="141" bottom="141"/><hp:inMargin left="0" righ'' @
     ascii ''t="0" top="0" bottom="0"/>''\<close>

definition table_cell_markup ::
  "ustring \<Rightarrow> ustring \<Rightarrow> ustring \<Rightarrow> ustring \<Rightarrow> ustring \<Rightarrow> nat \<Rightarrow> nat \<Rightarrow> int \<Rightarrow> int
   \<Rightarrow> ustring" where
  \<open>table_cell_markup header cell_pid cell_cpr safe_text cell_lineseg col_idx row_idx
       col_width row_height =
     ascii ''<hp:tc name="" header="'' @
     header @
     ascii ''" hasMargin="0" protect="0" editable="0" dirty="0" borderFillIDR'' @
     ascii ''ef="'' @
     str_int TABLE_BORDER_FILL_ID @
     ascii ''"><hp:subList id="" textDirection="HORIZONTAL" lineWrap="BREAK" '' @
     ascii ''vertAlign="CENTER" linkListIDRef="0" linkListNextIDRef="0" textW'' @
     ascii ''idth="0" textHeight="0" hasTextRef="0" hasNumRef="0"><hp:p id="'' @
     cell_pid @
     ascii ''" paraPrIDRef="0" styleIDRef="0" pageBreak="0" columnBreak="0" m'' @
     ascii ''erged="0"><hp:run charPrIDRef="'' @
     cell_cpr @
     ascii ''"><hp:t>'' @
     safe_text @
     ascii ''</hp:t></hp:run>'' @
     cell_lineseg @
     ascii ''</hp:p></hp:subList><hp:cellAddr colAddr="'' @
     str_nat col_idx @
     ascii ''" rowAddr="'' @
     str_nat row_idx @
     ascii ''"/><hp:cellSpan colSpan="1" rowSpan="1"/><hp:cellSz width="'' @
     str_int col_width @
     ascii ''" height="'' @
     str_int row_height @
     ascii ''"/><hp:cellMargin left="141" right="141" top="141" bottom="141"/'' @
     ascii ''></hp:tc>''\<close>


text \<open>The loop over the cells of one row, and the loop over the rows, of \<open>make_table_xml\<close>.\<close>

fun table_cells :: "ustring list \<Rightarrow> nat \<Rightarrow> nat \<Rightarrow> int \<Rightarrow> nat \<Rightarrow> ustring \<times> nat" where
  "table_cells [] col_idx row_idx col_width counter = ([], counter)"
| "table_cells (cell_text # row) col_idx row_idx col_width counter =
     (let header = (if row_idx = 0 then ascii ''1'' else ascii ''0'');
          safe_text = (if cell_text \<noteq> [] then xml_escape cell_text else []);
          (cell_pid, counter1) = next_para_id counter;
          cell_lineseg =
            compute_lineseg_xml cell_text CHAR_HEIGHT_NORMAL LINE_SPACING_PCT col_width;
          cell_cpr = ascii ''0'';
          (others, counter2) = table_cells row (col_idx + 1) row_idx col_width counter1
      in (table_cell_markup header cell_pid cell_cpr safe_text cell_lineseg col_idx row_idx
            col_width 1800 @ others,
          counter2))"

fun table_rows :: "ustring list list \<Rightarrow> nat \<Rightarrow> int \<Rightarrow> nat \<Rightarrow> ustring \<times> nat" where
  "table_rows [] row_idx col_width counter = ([], counter)"
| "table_rows (row # rows) row_idx col_width counter =
     (let (cells, counter1) = table_cells row 0 row_idx col_width counter;
          (others, counter2) = table_rows rows (row_idx + 1) col_width counter1
      in (ascii ''<hp:tr>'' @ cells @ ascii ''</hp:tr>'' @ others, counter2))"

definition make_table_xml ::
  "ustring list list \<Rightarrow> nat \<Rightarrow> ustring \<Rightarrow> nat \<Rightarrow> ustring \<times> nat" where
  "make_table_xml rows col_count caption_text counter =
     (let (caption_part, counter0) =
            (if caption_text \<noteq> [] then make_paragraph_xml caption_text 22 19 0 counter
             else ([], counter));
          (pid, counter1) = next_para_id counter0;
          (tbl_id, counter2) = next_para_id counter1;
          page_width = 42520;
          col_width = page_width div max (int col_count) 1;
          row_height = 1800;
          total_height = row_height * int (length rows);
          (body, counter3) = table_rows rows 0 col_width counter2
      in (caption_part @
          table_open_markup pid tbl_id (length rows) col_count page_width total_height @
          body @ ascii ''</hp:tbl>'' @ ascii ''<hp:t></hp:t></hp:run></hp:p>'',
          counter3))"

section \<open>Block conversion\<close>

text \<open>
  The block nodes, one constructor for each tag \<open>convert_blocks\<close> dispatches on, with the
  payload it reads. A table cell is the list of its blocks (\<open>cell[4]\<close>), a row the list of
  its cells (\<open>row[1]\<close>); \<open>Table\<close> holds the caption's blocks (\<open>caption[1]\<close>), the head
  rows (\<open>table_head[1]\<close>) and, for every body, its intermediate head rows (\<open>tbody[2]\<close>,
  which the source does not read) and its body rows (\<open>tbody[3]\<close>). \<open>OtherBlock\<close> stands
  for any tag without a branch.
\<close>

datatype block =
    Para "inline list"
  | Plain "inline list"
  | Header int "inline list"
  | CodeBlock ustring
  | BulletList "block list list"
  | OrderedList int "block list list"
  | BlockQuote "block list"
  | Table "block list" "block list list list"
      "(block list list list \<times> block list list list) list"
  | HorizontalRule
  | Div "block list"
  | DefinitionList "(inline list \<times> block list list) list"
  | LineBlock "inline list list"
  | OtherBlock string

definition HEADING_STYLE :: "int \<Rightarrow> (int \<times> int \<times> int) option" where
  "HEADING_STYLE =
     [1 \<mapsto> (2, 2, 7), 2 \<mapsto> (3, 3, 8), 3 \<mapsto> (4, 4, 9),
      4 \<mapsto> (5, 5, 0), 5 \<mapsto> (6, 6, 0), 6 \<mapsto> (7, 7, 0)]"

definition NORMAL_STYLE :: "int \<times> int \<times> int" where "NORMAL_STYLE = (0, 0, 0)"
definition CAPTION_STYLE :: "int \<times> int \<times> int" where "CAPTION_STYLE = (22, 19, 0)"
definition CODE_CHAR_PR_ID :: int where "CODE_CHAR_PR_ID = 10"

definition indent_prefix :: "nat \<Rightarrow> ustring" where
  "indent_prefix indent_level = replicate indent_level 0x3000"

text \<open>\<open>s.split("\n")\<close>, for any separator character.\<close>

fun split_on :: "nat \<Rightarrow> ustring \<Rightarrow> ustring list" where
  "split_on sep [] = [[]]"
| "split_on sep (c # cs) =
     (if c = sep then [] # split_on sep cs
      else (case split_on sep cs of
              [] \<Rightarrow> [[c]]
            | l # ls \<Rightarrow> (c # l) # ls))"

text \<open>
  One paragraph for each text of a list, in order: the loops over the lines of a code
  block and over the lines of a line block.
\<close>

fun make_paragraphs :: "ustring list \<Rightarrow> int \<Rightarrow> nat \<Rightarrow> ustring list \<times> nat" where
  "make_paragraphs [] char_pr_id counter = ([], counter)"
| "make_paragraphs (line # lines) char_pr_id counter =
     (let (p, counter1) = make_paragraph_xml line 0 0 char_pr_id counter;
          (ps, counter2) = make_paragraphs lines char_pr_id counter1
      in (p # ps, counter2))"

text \<open>
  The text of the \<open>Para\<close> and \<open>Plain\<close> blocks of a table cell or of a caption, other
  blocks ignored.
\<close>

fun blocks_text :: "block list \<Rightarrow> ustring" where
  "blocks_text [] = []"
| "blocks_text (Para c # cbs) = extract_text c @ blocks_text cbs"
| "blocks_text (Plain c # cbs) = extract_text c @ blocks_text cbs"
| "blocks_text (cb # cbs) = blocks_text cbs"

text \<open>
  The table branch, lines 401 to 437: the loop over rows that collects the cell texts
  of every row with at least one cell and tracks the largest row length, run over the
  head rows and then over the body rows of every body; then the padding loop.
\<close>

fun collect_rows ::
  "block list list list \<Rightarrow> ustring list list \<Rightarrow> nat \<Rightarrow> ustring list list \<times> nat" where
  "collect_rows [] all_rows col_count = (all_rows, col_count)"
| "collect_rows (cells # rows) all_rows col_count =
     (let row_texts = map blocks_text cells
      in if row_texts \<noteq> []
         then collect_rows rows (all_rows @ [row_texts]) (max col_count (length row_texts))
         else collect_rows rows all_rows col_count)"

fun collect_bodies ::
  "(block list list list \<times> block list list list) list \<Rightarrow> ustring list list \<Rightarrow> nat
   \<Rightarrow> ustring list list \<times> nat" where
  "collect_bodies [] all_rows col_count = (all_rows, col_count)"
| "collect_bodies ((intermediate_head, body_rows) # table_bodies) all_rows col_count =
     (let (all_rows1, col_count1) = collect_rows body_rows all_rows col_count
      in collect_bodies table_bodies all_rows1 col_count1)"

definition pad_row :: "nat \<Rightarrow> ustring list \<Rightarrow> ustring list" where
  "pad_row col_count row = row @ replicate (col_count - length row) []"

definition normalize_table ::
  "block list list list \<Rightarrow> (block list list list \<times> block list list list) list
   \<Rightarrow> ustring list list \<times> nat" where
  "normalize_table head_rows table_bodies =
     (let (all_rows0, col_count0) = collect_rows head_rows [] 0;
          (all_rows1, col_count) = collect_bodies table_bodies all_rows0 col_count0
      in (map (pad_row col_count) all_rows1, col_count))"

definition text_run_tag :: ustring where
  "text_run_tag = ascii ''<hp:t>''"

text \<open>The marker put on the first element of a list item, when the item produced one.\<close>

definition mark_first :: "ustring \<Rightarrow> ustring list \<Rightarrow> ustring list" where
  "mark_first marker item_parts =
     (case item_parts of
        [] \<Rightarrow> []
      | first # others \<Rightarrow>
          replace_first text_run_tag (text_run_tag @ marker) first # others)"

fun single_math :: "inline list \<Rightarrow> ustring option" where
  "single_math [Math latex_str] = Some latex_str"
| "single_math c = None"

text \<open>The branches of \<open>convert_blocks\<close> that do not call it.\<close>

definition convert_para :: "inline list \<Rightarrow> nat \<Rightarrow> nat \<Rightarrow> ustring list \<times> nat" where
  "convert_para c indent_level counter =
     (case single_math c of
        Some latex_str \<Rightarrow>
          (let (p, counter1) = make_equation_paragraph_xml latex_str counter
           in ([p], counter1))
      | None \<Rightarrow>
          (let (p, counter1) =
                 make_paragraph_xml (indent_prefix indent_level @ extract_text c) 0 0 0 counter
           in ([p], counter1)))"

definition convert_header :: "int \<Rightarrow> inline list \<Rightarrow> nat \<Rightarrow> ustring list \<times> nat" where
  "convert_header level c counter =
     (let (sid, pid, cid) = (case HEADING_STYLE level of Some st \<Rightarrow> st | None \<Rightarrow> NORMAL_STYLE);
          (p, counter1) = make_paragraph_xml (extract_text c) sid pid cid counter
      in ([p], counter1))"

definition convert_code_block :: "ustring \<Rightarrow> nat \<Rightarrow> nat \<Rightarrow> ustring list \<times> nat" where
  "convert_code_block code_text indent_level counter =
     make_paragraphs (map (\<lambda>line. indent_prefix indent_level @ line) (split_on 10 code_text))
       CODE_CHAR_PR_ID counter"

definition convert_table ::
  "block list \<Rightarrow> block list list list
   \<Rightarrow> (block list list list \<times> block list list list) list \<Rightarrow> nat
   \<Rightarrow> ustring list \<times> nat" where
  "convert_table caption head_rows table_bodies counter =
     (let (all_rows, col_count) = normalize_table head_rows table_bodies;
          cap_text = blocks_text caption
      in if all_rows \<noteq> [] \<and> col_count > 0
         then (let (t, counter1) = make_table_xml all_rows col_count cap_text counter
               in ([t], counter1))
         else ([], counter))"

definition convert_rule :: "nat \<Rightarrow> ustring list \<times> nat" where
  "convert_rule counter =
     (let (p, counter1) = make_paragraph_xml (replicate 30 0x2501) 0 0 0 counter
      in ([p], counter1))"

definition convert_line_block :: "inline list list \<Rightarrow> nat \<Rightarrow> nat \<Rightarrow> ustring list \<times> nat" where
  "convert_line_block lines indent_level counter =
     make_paragraphs (map (\<lambda>line_inlines. indent_prefix indent_level @ extract_text line_inlines)
                        lines) 0 counter"

definition convert_term :: "inline list \<Rightarrow> nat \<Rightarrow> nat \<Rightarrow> ustring \<times> nat" where
  "convert_term term_inlines indent_level counter =
     make_paragraph_xml (indent_prefix indent_level @ extract_text term_inlines) 0 0 0 counter"

function (sequential) convert_blocks :: "block list \<Rightarrow> nat \<Rightarrow> nat \<Rightarrow> ustring list \<times> nat"
  and convert_block :: "block \<Rightarrow> nat \<Rightarrow> nat \<Rightarrow> ustring list \<times> nat"
  and convert_bullet_items :: "block list list \<Rightarrow> nat \<Rightarrow> nat \<Rightarrow> ustring list \<times> nat"
  and convert_ordered_items ::
    "block list list \<Rightarrow> int \<Rightarrow> nat \<Rightarrow> nat \<Rightarrow> nat \<Rightarrow> ustring list \<times> nat"
  and convert_definition_items ::
    "(inline list \<times> block list list) list \<Rightarrow> nat \<Rightarrow> nat \<Rightarrow> ustring list \<times> nat"
  and convert_definitions :: "block list list \<Rightarrow> nat \<Rightarrow> nat \<Rightarrow> ustring list \<times> nat"
  where
  "convert_blocks [] indent_level counter = ([], counter)"
| "convert_blocks (block # blocks) indent_level counter =
     (let (parts, counter1) = convert_block block indent_level counter;
          (others, counter2) = convert_blocks blocks indent_level counter1
      in (parts @ others, counter2))"
| "convert_block (Para c) indent_level counter = convert_para c indent_level counter"
| "convert_block (Plain c) indent_level counter = convert_para c indent_level counter"
| "convert_block (Header level c) indent_level counter = convert_header level c counter"
| "convert_block (CodeBlock code_text) indent_level counter =
     convert_code_block code_text indent_level counter"
| "convert_block (BulletList items) indent_level counter =
     convert_bullet_items items indent_level counter"
| "convert_block (OrderedList start_num items) indent_level counter =
     convert_ordered_items items start_num 0 indent_level counter"
| "convert_block (BlockQuote c) indent_level counter =
     convert_blocks c (indent_level + 1) counter"
| "convert_block (Table caption head_rows table_bodies) indent_level counter =
     convert_table caption head_rows table_bodies counter"
| "convert_block HorizontalRule indent_level counter = convert_rule counter"
| "convert_block (Div c) indent_level counter = convert_blocks c indent_level counter"
| "convert_block (DefinitionList items) indent_level counter =
     convert_definition_items items indent_level counter"
| "convert_block (LineBlock lines) indent_level counter =
     convert_line_block lines indent_level counter"
| "convert_block (OtherBlock t) indent_level counter = ([], counter)"
| "convert_bullet_items [] indent_level counter = ([], counter)"
| "convert_bullet_items (item_blocks # items) indent_level counter =
     (let (item_parts, counter1) = convert_blocks item_blocks indent_level counter;
          (others, counter2) = convert_bullet_items items indent_level counter1
      in (mark_first [0x2022, 32] item_parts @ others, counter2))"
| "convert_ordered_items [] start_num idx indent_level counter = ([], counter)"
| "convert_ordered_items (item_blocks # items) start_num idx indent_level counter =
     (let (item_parts, counter1) = convert_blocks item_blocks indent_level counter;
          num = start_num + int idx;
          (others, counter2) =
            convert_ordered_items items start_num (idx + 1) indent_level counter1
      in (mark_first (str_int num @ ascii ''. '') item_parts @ others, counter2))"
| "convert_definition_items [] indent_level counter = ([], counter)"
| "convert_definition_items ((term_inlines, definitions) # items) indent_level counter =
     (let (p, counter1) = convert_term term_inlines indent_level counter;
          (defs, counter2) = convert_definitions definitions indent_level counter1;
          (others, counter3) = convert_definition_items items indent_level counter2
      in (p # defs @ others, counter3))"
| "convert_definitions [] indent_level counter = ([], counter)"
| "convert_definitions (def_blocks # definitions) indent_level counter =
     (let (parts, counter1) = convert_blocks def_blocks (indent_level + 1) counter;
          (others, counter2) = convert_definitions definitions indent_level counter1
      in (parts @ others, counter2))"
  by pat_completeness auto
termination
  by (relation "measure
        (case_sum
           (case_sum (\<lambda>(bs, _, _). size_list size bs)
              (case_sum (\<lambda>(b, _, _). size b)
                 (\<lambda>(items, _, _). size_list (size_list size) items)))
           (case_sum (\<lambda>(items, _, _, _, _). size_list (size_list size) items)
              (case_sum
                 (\<lambda>(items, _, _).
                     size_list (size_prod (\<lambda>_. 0) (size_list (size_list size))) items)
                 (\<lambda>(defs, _, _). size_list (size_list size) defs))))")
     auto

text \<open>The rows a table block supplies, in the order the source visits them.\<close>

definition input_rows ::
  "block list list list \<Rightarrow> (block list list list \<times> block list list list) list
   \<Rightarrow> block list list list" where
  "input_rows head_rows table_bodies = head_rows @ concat (map snd table_bodies)"

text \<open>
  The first occurrence of a non-empty pattern in a string: the text before it and the
  text after it.
\<close>

fun split_first :: "ustring \<Rightarrow> ustring \<Rightarrow> (ustring \<times> ustring) option" where
  "split_first pat [] = None"
| "split_first pat (c # cs) =
     (if prefix pat (c # cs) then Some ([], drop (length pat) (c # cs))
      else (case split_first pat cs of
              None \<Rightarrow> None
            | Some (before, after) \<Rightarrow> Some (c # before, after)))"

section \<open>Section builder\<close>

text \<open>\<open>" | ".join(parts)\<close> and \<open>"".join(parts)\<close>, for any separator.\<close>

fun join :: "ustring \<Rightarrow> ustring list \<Rightarrow> ustring" where
  "join sep [] = []"
| "join sep [p] = p"
| "join sep (p # q # ps) = p @ sep @ join sep (q # ps)"

text \<open>
  \<open>if cond: title_parts.append(make_paragraph_xml(text, ...))\<close>, on the list built so far
  and the paragraph counter.
\<close>

definition append_paragraph_if ::
  "bool \<Rightarrow> ustring \<Rightarrow> int \<Rightarrow> int \<Rightarrow> int \<Rightarrow> ustring list \<times> nat \<Rightarrow> ustring list \<times> nat" where
  "append_paragraph_if cond text style_id para_pr_id char_pr_id st =
     (if cond
      then (let (p, counter1) = make_paragraph_xml text style_id para_pr_id char_pr_id (snd st)
            in (fst st @ [p], counter1))
      else st)"

definition build_title_block_xml ::
  "ustring \<Rightarrow> ustring \<Rightarrow> ustring \<Rightarrow> ustring \<Rightarrow> nat \<Rightarrow> ustring list \<times> nat" where
  "build_title_block_xml title subtitle author date_str counter =
     (let st0 = ([], counter);
          st1 = append_paragraph_if (title \<noteq> []) title 0 0 7 st0;
          st2 = append_paragraph_if (subtitle \<noteq> []) subtitle 0 0 8 st1;
          meta_line = join (ascii '' | '') (filter (\<lambda>part. part \<noteq> []) [author, date_str]);
          st3 = append_paragraph_if (author \<noteq> [] \<or> date_str \<noteq> []) meta_line 0 0 0 st2;
          st4 = append_paragraph_if (fst st3 \<noteq> []) [] 0 0 0 st3
      in st4)"

text \<open>
  \<open>s.index(sub, start)\<close>: the position of the first occurrence of a non-empty \<open>sub\<close> at
  or after \<open>start\<close>; \<open>None\<close> where the source raises \<open>ValueError\<close>.
\<close>

fun find_sub :: "ustring \<Rightarrow> ustring \<Rightarrow> nat \<Rightarrow> nat option" where
  "find_sub sub [] pos = None"
| "find_sub sub (c # cs) pos =
     (if prefix sub (c # cs) then Some pos else find_sub sub cs (pos + 1))"

definition str_index :: "ustring \<Rightarrow> ustring \<Rightarrow> nat \<Rightarrow> nat option" where
  "str_index s sub start = find_sub sub (drop start s) start"

datatype error = ValueError | UnicodeEncodeError | KeyError

text \<open>
  The title block, the converted blocks and the paragraph added when both are empty:
  lines 502 to 505 of \<open>build_section_xml\<close>.
\<close>

definition section_elements ::
  "block list \<Rightarrow> ustring \<Rightarrow> ustring \<Rightarrow> ustring \<Rightarrow> ustring \<Rightarrow> nat
   \<Rightarrow> ustring list \<times> ustring list \<times> nat" where
  "section_elements blocks title subtitle author date_str counter =
     (let (title_block, counter1) = build_title_block_xml title subtitle author date_str counter;
          (content_parts, counter2) = convert_blocks blocks 0 counter1
      in if title_block = [] \<and> content_parts = []
         then (let (p, counter3) = make_paragraph_xml [] 0 0 0 counter2
               in (title_block, [p], counter3))
         else (title_block, content_parts, counter2))"

text \<open>
  Lines 494 to 500 of \<open>build_section_xml\<close>, on the decoded text of the skeleton's
  \<open>Contents/section0.xml\<close>: the text up to the end of the opening \<open><hs:sec\<close> tag, and
  the skeleton's first paragraph. A slice whose end is before its start is empty.
\<close>

definition skeleton_frame :: "ustring \<Rightarrow> error + (ustring \<times> ustring)" where
  "skeleton_frame original =
     (case str_index original (ascii ''<hs:sec'') 0 of None \<Rightarrow> Inl ValueError
      | Some sec_tag_start \<Rightarrow>
     (case str_index original (ascii ''>'') sec_tag_start of None \<Rightarrow> Inl ValueError
      | Some gt \<Rightarrow>
     (case str_index original (ascii ''<hp:p '') 0 of None \<Rightarrow> Inl ValueError
      | Some first_p_start \<Rightarrow>
     (case str_index original (ascii ''</hp:p>'') 0 of None \<Rightarrow> Inl ValueError
      | Some close \<Rightarrow>
        (let sec_tag_end = gt + 1;
             xml_header_and_open = take sec_tag_end original;
             first_p_end = close + length (ascii ''</hp:p>'');
             first_paragraph = take (first_p_end - first_p_start) (drop first_p_start original)
         in Inr (xml_header_and_open, first_paragraph))))))"

definition build_section_xml ::
  "ustring \<Rightarrow> block list \<Rightarrow> ustring \<Rightarrow> ustring \<Rightarrow> ustring \<Rightarrow> ustring \<Rightarrow> nat
   \<Rightarrow> error + (ustring \<times> nat)" where
  "build_section_xml original blocks title subtitle author date_str counter =
     (case skeleton_frame original of
        Inl e \<Rightarrow> Inl e
      | Inr (xml_header_and_open, first_paragraph) \<Rightarrow>
          (let (title_block, content_parts, counter1) =
                 section_elements blocks title subtitle author date_str counter
           in Inr (xml_header_and_open @ first_paragraph @ concat title_block @
                   concat content_parts @ ascii ''</hs:sec>'',
                   counter1)))"

definition paragraph_open :: ustring where
  \<open>paragraph_open = ascii ''<hp:p id="''\<close>

section \<open>Package assembly\<close>

text \<open>
  A byte is a number below 256. A part of an archive is its name, its other metadata
  (the rest of the \<open>ZipInfo\<close>, which \<open>writestr(item, data)\<close> carries over) and its bytes;
  an archive is the list of its parts in \<open>infolist()\<close> order. \<open>ZipFile.read(name)\<close>
  looks the name up in the archive's name table, where a later part of the same name
  has replaced an earlier one.
\<close>

type_synonym bytes = "nat list"

record 'm zip_part =
  filename :: ustring
  zip_info :: 'm
  content :: bytes

type_synonym 'm archive = "'m zip_part list"

definition zip_read :: "'m archive \<Rightarrow> ustring \<Rightarrow> bytes option" where
  "zip_read z name =
     (case filter (\<lambda>p. filename p = name) z of
        [] \<Rightarrow> None
      | p # ps \<Rightarrow> Some (content (last (p # ps))))"

text \<open>
  \<open>s.encode('utf-8')\<close>: a surrogate code point cannot be encoded, and the source raises
  \<open>UnicodeEncodeError\<close>. (A Python string holds no number from 0x110000 on; the model
  rejects those too.)
\<close>

definition utf8_char :: "nat \<Rightarrow> bytes option" where
  "utf8_char c =
     (if c < 0x80 then Some [c]
      else if c < 0x800 then Some [0xC0 + c div 64, 0x80 + c mod 64]
      else if c < 0x10000
           then (if 0xD800 \<le> c \<and> c \<le> 0xDFFF then None
                 else Some [0xE0 + c div 4096, 0x80 + (c div 64) mod 64, 0x80 + c mod 64])
      else if c < 0x110000
           then Some [0xF0 + c div 262144, 0x80 + (c div 4096) mod 64,
                      0x80 + (c div 64) mod 64, 0x80 + c mod 64]
      else None)"

fun utf8_encode :: "ustring \<Rightarrow> error + bytes" where
  "utf8_encode [] = Inr []"
| "utf8_encode (c # cs) =
     (case utf8_char c of
        None \<Rightarrow> Inl UnicodeEncodeError
      | Some bs \<Rightarrow> (case utf8_encode cs of Inl e \<Rightarrow> Inl e | Inr rest \<Rightarrow> Inr (bs @ rest)))"

definition SECTION_PART :: ustring where "SECTION_PART = ascii ''Contents/section0.xml''"
definition HPF_PART :: ustring where "HPF_PART = ascii ''Contents/content.hpf''"
definition HEADER_PART :: ustring where "HEADER_PART = ascii ''Contents/header.xml''"

text \<open>
  The bytes written for one part (lines 714 to 721 of \<open>main\<close>), and the loop over
  \<open>src_zip.infolist()\<close>. An exception leaves no output archive: the temporary file is
  removed and the exception raised again.
\<close>

definition part_bytes ::
  "'m archive \<Rightarrow> ustring \<Rightarrow> ustring \<Rightarrow> ustring \<Rightarrow> ustring \<Rightarrow> error + bytes" where
  "part_bytes src_zip name section_xml updated_hpf updated_header =
     (if name = SECTION_PART then utf8_encode section_xml
      else if name = HPF_PART then utf8_encode updated_hpf
      else if name = HEADER_PART then utf8_encode updated_header
      else (case zip_read src_zip name of
              None \<Rightarrow> Inl KeyError
            | Some d \<Rightarrow> Inr d))"

fun write_parts ::
  "'m archive \<Rightarrow> 'm zip_part list \<Rightarrow> ustring \<Rightarrow> ustring \<Rightarrow> ustring \<Rightarrow> error + 'm archive" where
  "write_parts src_zip [] section_xml updated_hpf updated_header = Inr []"
| "write_parts src_zip (item # items) section_xml updated_hpf updated_header =
     (case part_bytes src_zip (filename item) section_xml updated_hpf updated_header of
        Inl e \<Rightarrow> Inl e
      | Inr d \<Rightarrow>
          (case write_parts src_zip items section_xml updated_hpf updated_header of
             Inl e \<Rightarrow> Inl e
           | Inr dst \<Rightarrow> Inr (item\<lparr>content := d\<rparr> # dst)))"

definition repackage ::
  "'m archive \<Rightarrow> ustring \<Rightarrow> ustring \<Rightarrow> ustring \<Rightarrow> error + 'm archive" where
  "repackage src_zip section_xml updated_hpf updated_header =
     write_parts src_zip src_zip section_xml updated_hpf updated_header"

text \<open>The bytes the loop writes for a part name, given the three encoded texts.\<close>

definition written_bytes :: "'m archive \<Rightarrow> bytes \<Rightarrow> bytes \<Rightarrow> bytes \<Rightarrow> ustring \<Rightarrow> bytes" where
  "written_bytes src_zip sb hb xb name =
     (if name = SECTION_PART then sb
      else if name = HPF_PART then hb
      else if name = HEADER_PART then xb
      else (case zip_read src_zip name of None \<Rightarrow> [] | Some d \<Rightarrow> d))"

section \<open>Style catalog patching\<close>

definition HEADING_CHAR_PROPS :: "(int \<times> int \<times> bool \<times> int) list" where
  "HEADING_CHAR_PROPS = [(7, 2200, True, 0), (8, 1600, True, 0), (9, 1300, False, 0)]"

definition CODE_FONT_REF :: int where "CODE_FONT_REF = 2"

definition LANG_FONT_MAP :: "ustring \<Rightarrow> ustring option" where
  "LANG_FONT_MAP =
     [ascii ''HANGUL'' \<mapsto> ascii ''NanumSquareOTF'',
      ascii ''LATIN'' \<mapsto> ascii ''NimbusSanL'',
      ascii ''HANJA'' \<mapsto> ascii ''Noto Sans CJK KR'',
      ascii ''JAPANESE'' \<mapsto> ascii ''Noto Sans CJK KR'',
      ascii ''OTHER'' \<mapsto> ascii ''NimbusSanL'',
      ascii ''SYMBOL'' \<mapsto> ascii ''STIX Two Text'',
      ascii ''USER'' \<mapsto> ascii ''NimbusSanL'']"

definition HEADING_SPACING :: "(int \<times> int) list" where
  "HEADING_SPACING = [(2, 800), (3, 600), (4, 400)]"

definition make_charpr_xml :: "int \<Rightarrow> int \<Rightarrow> bool \<Rightarrow> int \<Rightarrow> ustring" where
  \<open>make_charpr_xml cpr_id height bold font_ref =
     (let bold_attr = (if bold then ascii '' bold="1"'' else [])
      in ascii ''<hh:charPr id="'' @
         str_int cpr_id @
         ascii ''" height="'' @
         str_int height @
         ascii ''" textColor="#000000" shadeColor="none" useFontSpace="0" useKerning="0"'' @
         ascii '' symMark="NONE" borderFillIDRef="2"'' @
         bold_attr @
         ascii ''>'' @
         ascii ''<hh:fontRef hangul="'' @
         str_int font_ref @
         ascii ''" latin="'' @
         str_int font_ref @
         ascii ''" hanja="'' @
         str_int font_ref @
         ascii ''" japanese="'' @
         str_int font_ref @
         ascii ''" other="'' @
         str_int font_ref @
         ascii ''" symbol="'' @
         str_int font_ref @
         ascii ''" user="'' @
         str_int font_ref @
         ascii ''"/>'' @
         ascii ''<hh:ratio hangul="100" latin="100" hanja="100" japanese="100" other="100"'' @
         ascii '' symbol="100" user="100"/>'' @
         ascii ''<hh:spacing hangul="0" latin="0" hanja="0" japanese="0" other="0" symbol="0"'' @
         ascii '' user="0"/>'' @
         ascii ''<hh:relSz hangul="100" latin="100" hanja="100" japanese="100" other="100"'' @
         ascii '' symbol="100" user="100"/>'' @
         ascii ''<hh:offset hangul="0" latin="0" hanja="0" japanese="0" other="0" symbol="0"'' @
         ascii '' user="0"/>'' @
         ascii ''<hh:underline type="NONE" shape="SOLID" color="#000000"/>'' @
         ascii ''<hh:strikeout shape="NONE" color="#000000"/>'' @
         ascii ''<hh:outline type="NONE"/>'' @
         ascii ''<hh:shadow type="NONE" color="#C0C0C0" offsetX="10" offsetY="10"/>'' @
         ascii ''</hh:charPr>'')\<close>

definition make_table_borderfill_xml :: ustring where
  \<open>make_table_borderfill_xml =
     ascii ''<hh:borderFill id="'' @
     str_int TABLE_BORDER_FILL_ID @
     ascii ''" threeD="0" shadow="0" centerLine="NONE" breakCellSeparateLine="0">'' @
     ascii ''<hh:slash type="NONE" Crooked="0" isCounter="0"/>'' @
     ascii ''<hh:backSlash type="NONE" Crooked="0" isCounter="0"/>'' @
     ascii ''<hh:leftBorder type="SOLID" width="0.12 mm" color="#000000"/>'' @
     ascii ''<hh:rightBorder type="SOLID" width="0.12 mm" color="#000000"/>'' @
     ascii ''<hh:topBorder type="SOLID" width="0.12 mm" color="#000000"/>'' @
     ascii ''<hh:bottomBorder type="SOLID" width="0.12 mm" color="#000000"/>'' @
     ascii ''<hh:diagonal type="NONE" width="0.12 mm" color="#000000"/>'' @
     ascii ''</hh:borderFill>''\<close>

definition make_font_xml :: "int \<Rightarrow> ustring \<Rightarrow> ustring" where
  \<open>make_font_xml font_id face_name =
     ascii ''<hh:font id="'' @
     str_int font_id @
     ascii ''" face="'' @
     face_name @
     ascii ''" type="TTF" isEmbedded="0"><hh:typeInfo familyType="FCAT_GOTHIC'' @
     ascii ''" weight="6" proportion="4" contrast="0" strokeVariation="1" arm'' @
     ascii ''Style="1" letterform="1" midline="1" xHeight="1"/></hh:font>''\<close>

definition replace_fontface_block :: "ustring \<Rightarrow> ustring" where
  \<open>replace_fontface_block lang =
     (let primary_font = (case LANG_FONT_MAP lang of
                            Some face \<Rightarrow> face | None \<Rightarrow> ascii ''NimbusSanL'')
      in ascii ''<hh:fontface lang="'' @
         lang @
         ascii ''" fontCnt="3">'' @
         make_font_xml 0 primary_font @
         make_font_xml 1 primary_font @
         make_font_xml 2 (ascii ''D2Coding'') @
         ascii ''</hh:fontface>'')\<close>

text \<open>
  \<open>\w\<close> in a \<open>str\<close> pattern: a letter or digit, or the underscore. Among the ASCII
  characters these are fixed; which code points from 128 on are letters or digits is a
  table of the language's runtime, taken as the parameter \<open>alnum\<close>.
\<close>

definition word_char :: "(nat \<Rightarrow> bool) \<Rightarrow> nat \<Rightarrow> bool" where
  "word_char alnum c \<longleftrightarrow>
     (if c < 128
      then (48 \<le> c \<and> c \<le> 57) \<or> (65 \<le> c \<and> c \<le> 90) \<or> (97 \<le> c \<and> c \<le> 122) \<or> c = 95
      else alnum c)"

text \<open>
  A lazy \<open>.*?\<close> (with \<open>re.DOTALL\<close>) followed by a pattern: the first position at which
  the pattern matches, with the text skipped before it.
\<close>

fun lazy_find :: "(ustring \<Rightarrow> 'a option) \<Rightarrow> ustring \<Rightarrow> (ustring \<times> 'a) option" where
  "lazy_find m [] = (case m [] of None \<Rightarrow> None | Some r \<Rightarrow> Some ([], r))"
| "lazy_find m (c # cs) =
     (case m (c # cs) of
        Some r \<Rightarrow> Some ([], r)
      | None \<Rightarrow>
          (case lazy_find m cs of
             None \<Rightarrow> None
           | Some (skipped, r) \<Rightarrow> Some (c # skipped, r)))"

text \<open>
  The pattern \<open><hh:fontface lang="(\w+)"[^>]*>.*?</hh:fontface>\<close> with the replacement
  function \<open>_replace_fontface_block\<close>. The greedy \<open>\w+\<close> and \<open>[^>]*\<close> are each followed
  by a character outside their class, so neither gives anything back.
\<close>

definition m_fontface :: "(nat \<Rightarrow> bool) \<Rightarrow> ustring \<Rightarrow> (ustring \<times> nat) option" where
  \<open>m_fontface alnum s =
     (case lit (ascii ''<hh:fontface lang="'') s of None \<Rightarrow> None | Some s1 \<Rightarrow>
     (let lang = takeWhile (word_char alnum) s1
      in if lang = [] then None
         else (case lit (ascii ''"'') (dropWhile (word_char alnum) s1) of None \<Rightarrow> None
               | Some s2 \<Rightarrow>
              (case upto_char 62 s2 of None \<Rightarrow> None | Some (attrs, s3) \<Rightarrow>
              (case lazy_find (lit (ascii ''</hh:fontface>'')) s3 of None \<Rightarrow> None
               | Some (inner, s4) \<Rightarrow>
                   Some (replace_fontface_block lang, length s - length s4))))))\<close>

definition replace_fontfaces :: "(nat \<Rightarrow> bool) \<Rightarrow> ustring \<Rightarrow> ustring" where
  "replace_fontfaces alnum header_xml = re_sub (m_fontface alnum) header_xml"

text \<open>
  The patterns \<open>(<hh:charProperties\s+itemCnt=")7(")\<close> and
  \<open>(<hh:borderFillList\s+itemCnt=")2(")\<close>, with replacements \<open>\g<1>11\2\<close> and
  \<open>\g<1>3\2\<close>: \<open>opener\<close> is the literal before \<open>\s+\<close>.
\<close>

definition ITEMCNT :: ustring where
  \<open>ITEMCNT = ascii ''itemCnt="''\<close>

definition QUOTE :: ustring where
  \<open>QUOTE = ascii ''"''\<close>

definition m_item_count ::
  "ustring \<Rightarrow> ustring \<Rightarrow> ustring \<Rightarrow> ustring \<Rightarrow> (ustring \<times> nat) option" where
  "m_item_count opener old new s =
     (case lit opener s of None \<Rightarrow> None | Some s1 \<Rightarrow>
     (let ws = takeWhile py_isspace s1
      in if ws = [] then None
         else (case lit (ITEMCNT @ old @ QUOTE) (dropWhile py_isspace s1) of None \<Rightarrow> None
               | Some s2 \<Rightarrow>
                   Some (opener @ ws @ ITEMCNT @ new @ QUOTE, length s - length s2))))"

definition CP_OPEN :: ustring where "CP_OPEN = ascii ''<hh:charProperties''"
definition CP_CLOSE :: ustring where "CP_CLOSE = ascii ''</hh:charProperties>''"
definition BF_OPEN :: ustring where "BF_OPEN = ascii ''<hh:borderFillList''"
definition BF_CLOSE :: ustring where "BF_CLOSE = ascii ''</hh:borderFillList>''"

text \<open>Step 1 of \<open>update_header_xml\<close>, lines 597 to 610.\<close>

definition new_charpr :: ustring where
  "new_charpr =
     concat (map (\<lambda>(cpr_id, height, bold, font_ref). make_charpr_xml cpr_id height bold font_ref)
               HEADING_CHAR_PROPS) @
     make_charpr_xml CODE_CHAR_PR_ID 1000 False CODE_FONT_REF"

definition add_charpr_entries :: "ustring \<Rightarrow> ustring" where
  "add_charpr_entries header_xml =
     re_sub (m_item_count CP_OPEN (ascii ''7'') (ascii ''11''))
       (str_replace CP_CLOSE (new_charpr @ CP_CLOSE) header_xml)"

text \<open>Step 2 of \<open>update_header_xml\<close>, lines 612 to 620.\<close>

definition add_table_borderfill :: "ustring \<Rightarrow> ustring" where
  "add_table_borderfill header_xml =
     re_sub (m_item_count BF_OPEN (ascii ''2'') (ascii ''3''))
       (str_replace BF_CLOSE (make_table_borderfill_xml @ BF_CLOSE) header_xml)"

text \<open>
  Step 3, lines 622 to 631: the pattern
  \<open>(<hh:paraPr\s+id="N"[^>]*>.*?)(<hc:prev\s+value=")0(")\<close> with \<open>re.DOTALL\<close> and the
  replacement \<open>\g<1>\g<2>V\3\<close>. \<open>m_prev_zero\<close> is the part from \<open><hc:prev\<close> on: its
  second group and the text after the match.
\<close>

definition PARAPR_OPEN :: ustring where "PARAPR_OPEN = ascii ''<hh:paraPr''"
definition PREV_OPEN :: ustring where "PREV_OPEN = ascii ''<hc:prev''"

definition m_prev_zero :: "ustring \<Rightarrow> (ustring \<times> ustring) option" where
  \<open>m_prev_zero s =
     (case lit PREV_OPEN s of None \<Rightarrow> None | Some s1 \<Rightarrow>
     (let ws = takeWhile py_isspace s1
      in if ws = [] then None
         else (case lit (ascii ''value="0"'') (dropWhile py_isspace s1) of None \<Rightarrow> None
               | Some s2 \<Rightarrow> Some (PREV_OPEN @ ws @ ascii ''value="'', s2))))\<close>

definition m_prev :: "int \<Rightarrow> int \<Rightarrow> ustring \<Rightarrow> (ustring \<times> nat) option" where
  \<open>m_prev para_pr_id prev_val s =
     (case lit PARAPR_OPEN s of None \<Rightarrow> None | Some s1 \<Rightarrow>
     (let ws = takeWhile py_isspace s1
      in if ws = [] then None
         else (case lit (ascii ''id="'' @ str_int para_pr_id @ ascii ''"'')
                      (dropWhile py_isspace s1) of None \<Rightarrow> None
               | Some s2 \<Rightarrow>
              (case upto_char 62 s2 of None \<Rightarrow> None | Some (attrs, s3) \<Rightarrow>
              (case lazy_find m_prev_zero s3 of None \<Rightarrow> None
               | Some (body, (group2, s4)) \<Rightarrow>
                   Some (PARAPR_OPEN @ ws @ ascii ''id="'' @ str_int para_pr_id @ ascii ''"'' @
                         attrs @ ascii ''>'' @ body @ group2 @ str_int prev_val @ ascii ''"'',
                         length s - length s4))))))\<close>

definition add_heading_spacing :: "ustring \<Rightarrow> ustring" where
  "add_heading_spacing header_xml =
     foldl (\<lambda>h (para_pr_id, prev_val). re_sub (m_prev para_pr_id prev_val) h)
       header_xml HEADING_SPACING"

definition update_header_xml :: "(nat \<Rightarrow> bool) \<Rightarrow> ustring \<Rightarrow> ustring" where
  "update_header_xml alnum header_xml =
     add_heading_spacing
       (add_table_borderfill (add_charpr_entries (replace_fontfaces alnum header_xml)))"

text \<open>
  Vocabulary for statements about catalog documents. A text is clean for a tag literal
  when the literal starts at none of its positions, whatever follows the text: at every
  position the rest of the text and the literal differ at some character. \<open>all_space\<close>
  is what \<open>\s+\<close> matches, \<open>all_digits\<close> a string of decimal digits.
\<close>

fun clean :: "ustring \<Rightarrow> ustring \<Rightarrow> bool" where
  "clean pat [] = True"
| "clean pat (c # cs) = (\<not> prefix pat (c # cs) \<and> \<not> prefix (c # cs) pat \<and> clean pat cs)"

definition all_space :: "ustring \<Rightarrow> bool" where
  "all_space ws \<longleftrightarrow> ws \<noteq> [] \<and> list_all py_isspace ws"

definition all_digits :: "ustring \<Rightarrow> bool" where
  "all_digits c \<longleftrightarrow> list_all (\<lambda>ch. 48 \<le> ch \<and> ch \<le> 57) c"

definition catalog_clean :: "ustring \<Rightarrow> bool" where
  "catalog_clean X \<longleftrightarrow>
     clean CP_OPEN X \<and> clean CP_CLOSE X \<and> clean BF_OPEN X \<and> clean BF_CLOSE X"

definition tags_clean :: "ustring \<Rightarrow> bool" where
  "tags_clean X \<longleftrightarrow> catalog_clean X \<and> clean PARAPR_OPEN X"

text \<open>
  The item count a catalog declares: the number written after the first
  \<open>opener\s+itemCnt="\<close> of the text.
\<close>

definition declared_count :: "ustring \<Rightarrow> ustring \<Rightarrow> nat option" where
  "declared_count opener s =
     (case lazy_find
             (\<lambda>t. case lit opener t of
                    None \<Rightarrow> None
                  | Some t1 \<Rightarrow>
                      if takeWhile py_isspace t1 = [] then None
                      else lit ITEMCNT (dropWhile py_isspace t1)) s of
        None \<Rightarrow> None
      | Some (skipped, t2) \<Rightarrow>
          Some (foldl (\<lambda>n c. 10 * n + (c - 48)) 0
                  (takeWhile (\<lambda>c. 48 \<le> c \<and> c \<le> 57) t2)))"

section \<open>Properties of inline text extraction\<close>

lemma extract_text_append:
  "extract_text (xs @ ys) = extract_text xs @ extract_text ys"
  by (induction xs) simp_all

text \<open>
  Claim C9. \<open>extract_text\<close> is a function of the inline sequence alone, defined by
  structural recursion with a case for every variant, so it returns a string for every
  finite sequence and equal inputs give equal outputs. It maps the empty sequence to the
  empty string, distributes over concatenation of sequences, and a \<open>Quoted\<close> node
  anywhere in a sequence contributes its children's text between U+201C and U+201D when
  its kind is \<open>DoubleQuote\<close> and between U+2018 and U+2019 for any other kind.
\<close>

theorem extract_text_quoted:
  "extract_text [] = []
   \<and> extract_text (xs @ ys) = extract_text xs @ extract_text ys
   \<and> extract_text (xs @ Quoted ''DoubleQuote'' c # ys) =
       extract_text xs @ [0x201C] @ extract_text c @ [0x201D] @ extract_text ys
   \<and> extract_text (xs @ Quoted kind c # ys) =
       (if kind = ''DoubleQuote''
        then extract_text xs @ [0x201C] @ extract_text c @ [0x201D] @ extract_text ys
        else extract_text xs @ [0x2018] @ extract_text c @ [0x2019] @ extract_text ys)
   \<and> (\<exists>s. extract_text xs = s)"
  by (simp add: extract_text_append open_quote_def close_quote_def)

section \<open>Properties of the line segments\<close>

lemma scan_chars_wrap:
  "i + length s = n \<Longrightarrow>
   scan_chars ch hs n s i w ls = ls @ wrap_points ch hs i w s"
proof (induction s arbitrary: i w ls)
  case Nil
  then show ?case by simp
next
  case (Cons c cs)
  have eq: "(i + 1 < n) = (cs \<noteq> [])" using Cons.prems by (cases cs) auto
  show ?case using Cons.prems eq
    by (simp add: Let_def char_width_def Cons.IH)
qed

lemma line_starts_wrap: "line_starts_of s ch hs = 0 # wrap_points ch hs 0 0 s"
  by (simp add: line_starts_of_def scan_chars_wrap)

lemma wrap_points_gt: "p \<in> set (wrap_points ch hs off w s) \<Longrightarrow> off < p"
proof (induction s arbitrary: off w)
  case Nil
  then show ?case by simp
next
  case (Cons c cs)
  then show ?case by (fastforce split: if_splits dest: Suc_lessD)
qed

lemma wrap_points_sorted: "sorted_wrt (<) (wrap_points ch hs off w s)"
  by (induction s arbitrary: off w) (auto dest: wrap_points_gt)

lemma line_starts_sorted: "sorted_wrt (<) (line_starts_of s ch hs)"
  by (auto simp: line_starts_wrap wrap_points_sorted dest: wrap_points_gt)

lemma seg_flags_list:
  "0 < n \<Longrightarrow> map (seg_flags n) [0..<n] =
     (if n = 1 then [393216] else 131072 # replicate (n - 2) 0 @ [262144])"
proof (cases "n = 1")
  case True
  then show ?thesis by (simp add: seg_flags_def)
next
  case False
  assume "0 < n"
  with False have n2: "2 \<le> n" by simp
  have "map (seg_flags n) [0..<n] = 131072 # replicate (n - 2) 0 @ [262144]"
  proof (rule nth_equalityI)
    show "length (map (seg_flags n) [0..<n]) = length (131072 # replicate (n - 2) 0 @ [262144])"
      using n2 by simp
  next
    fix i assume "i < length (map (seg_flags n) [0..<n])"
    then have i: "i < n" by simp
    show "map (seg_flags n) [0..<n] ! i = (131072 # replicate (n - 2) 0 @ [262144]) ! i"
      using i n2 by (auto simp: seg_flags_def nth_Cons nth_append split: nat.splits)
  qed
  with False show ?thesis by simp
qed

lemma linesegs_textpos:
  "s \<noteq> [] \<Longrightarrow> map textpos (compute_linesegs s ch lsp hs) = line_starts_of s ch hs"
  by (simp add: compute_linesegs_def Let_def o_def case_prod_unfold)

lemma linesegs_flags:
  "s \<noteq> [] \<Longrightarrow> map flags (compute_linesegs s ch lsp hs) =
     map (seg_flags (length (line_starts_of s ch hs))) [0..<length (line_starts_of s ch hs)]"
  by (simp add: compute_linesegs_def Let_def o_def case_prod_unfold
      flip: map_map [of "seg_flags _" fst, unfolded o_def])

lemma count_flags:
  "length (filter (\<lambda>s. P (flags s)) segs) = length (filter P (map flags segs))"
  by (induction segs) simp_all

text \<open>
  Claim C1, as stated: the new line is opened at the offset of the character that made
  the width exceed the page width. The source appends \<open>i + 1\<close>: on the two-character
  text \<open>ab\<close> with character height 1000 and page width 400 the first character (width
  500) overflows, and the source's second line starts at offset 1, not at offset 0.
\<close>

theorem line_start_not_at_current_offset:
  "line_starts_of (ascii ''ab'') 1000 400 = [0, 1]
   \<and> 0 # wrap_points_stated 1000 400 0 0 (ascii ''ab'') = [0, 0]"
  by (simp add: line_starts_of_def ascii_def char_width_def)

text \<open>
  Claim C1, amended: for every text, character height and page width the line starts
  computed by the scanning loop are offset 0 followed by the wrap points of the rule
  "add the character height for a code point above 0x2000 and half of it (rounded down)
  otherwise; when the accumulated width exceeds the page width and more characters
  remain, open a new line at the offset of the next character and reset the width".
\<close>

theorem line_starts_follow_wrap_rule:
  "line_starts_of text char_height page_width =
     0 # wrap_points char_height page_width 0 0 text"
  by (simp add: line_starts_of_def scan_chars_wrap)

text \<open>
  Claim C2. For a non-empty text the segments' text offsets are strictly increasing and
  start at 0, exactly one segment carries the last flag (0x40000 or 0x60000), exactly
  one carries the first flag (0x20000 or 0x60000), and a lone segment is flagged
  0x60000. For the empty text there is exactly one segment, with offset 0, vertical
  position 0 and flags 0x60000.
\<close>

theorem lineseg_offsets_and_flags:
  "let segs = compute_linesegs text char_height line_spacing_pct page_width in
   (text \<noteq> [] \<longrightarrow>
      sorted_wrt (<) (map textpos segs) \<and> segs \<noteq> [] \<and> textpos (hd segs) = 0
      \<and> length (filter (\<lambda>s. flags s = 0x40000 \<or> flags s = 0x60000) segs) = 1
      \<and> length (filter (\<lambda>s. flags s = 0x20000 \<or> flags s = 0x60000) segs) = 1
      \<and> flags (hd segs) = (if length segs = 1 then 0x60000 else 0x20000)
      \<and> flags (last segs) = (if length segs = 1 then 0x60000 else 0x40000))
   \<and> (text = [] \<longrightarrow>
      length segs = 1 \<and> textpos (hd segs) = 0 \<and> vertpos (hd segs) = 0
      \<and> flags (hd segs) = 0x60000)"
proof -
  define segs where "segs = compute_linesegs text char_height line_spacing_pct page_width"
  define starts where "starts = line_starts_of text char_height page_width"
  define n where "n = length starts"
  have empty: "length segs = 1 \<and> textpos (hd segs) = 0 \<and> vertpos (hd segs) = 0
      \<and> flags (hd segs) = 0x60000" if "text = []"
    using that by (simp add: segs_def compute_linesegs_def Let_def)
  have nonempty: "sorted_wrt (<) (map textpos segs) \<and> segs \<noteq> [] \<and> textpos (hd segs) = 0
      \<and> length (filter (\<lambda>s. flags s = 0x40000 \<or> flags s = 0x60000) segs) = 1
      \<and> length (filter (\<lambda>s. flags s = 0x20000 \<or> flags s = 0x60000) segs) = 1
      \<and> flags (hd segs) = (if length segs = 1 then 0x60000 else 0x20000)
      \<and> flags (last segs) = (if length segs = 1 then 0x60000 else 0x40000)"
    if ne: "text \<noteq> []"
  proof -
    have tp: "map textpos segs = starts"
      using ne by (simp add: segs_def starts_def linesegs_textpos)
    have st: "starts = 0 # wrap_points char_height page_width 0 0 text"
      by (simp add: starts_def line_starts_wrap)
    have npos: "0 < n" by (simp add: n_def st)
    have len: "length segs = n"
      using tp by (metis length_map n_def)
    have segs_ne: "segs \<noteq> []" using len npos by auto
    have fl: "map flags segs =
        (if n = 1 then [393216] else 131072 # replicate (n - 2) 0 @ [262144])"
      using ne npos by (simp add: segs_def linesegs_flags seg_flags_list n_def starts_def)
    have sorted: "sorted_wrt (<) (map textpos segs)"
      by (simp add: tp starts_def line_starts_sorted)
    have hd0: "textpos (hd segs) = 0"
      using tp st segs_ne by (metis hd_map list.sel(1))
    have c_last: "length (filter (\<lambda>s. flags s = 0x40000 \<or> flags s = 0x60000) segs) = 1"
      by (simp add: count_flags [of "\<lambda>f. f = 0x40000 \<or> f = 0x60000"] fl)
    have c_first: "length (filter (\<lambda>s. flags s = 0x20000 \<or> flags s = 0x60000) segs) = 1"
      by (simp add: count_flags [of "\<lambda>f. f = 0x20000 \<or> f = 0x60000"] fl)
    have hd_fl: "flags (hd segs) = hd (map flags segs)"
      using segs_ne by (simp add: hd_map)
    have last_fl: "flags (last segs) = last (map flags segs)"
      using segs_ne by (simp add: last_map)
    have f_hd: "flags (hd segs) = (if length segs = 1 then 0x60000 else 0x20000)"
      by (simp add: hd_fl fl len)
    have f_last: "flags (last segs) = (if length segs = 1 then 0x60000 else 0x40000)"
      by (simp add: last_fl fl len)
    show ?thesis
      using sorted segs_ne hd0 c_last c_first f_hd f_last by blast
  qed
  show ?thesis
    unfolding Let_def segs_def [symmetric] using empty nonempty by blast
qed

text \<open>
  The theorem of claim C2 at the text \<open>abcd\<close> (height 1000, page width 700: two
  segments), at the text \<open>a\<close> (one segment) and at the empty text.
\<close>

theorem lineseg_offsets_and_flags_witness:
  "map textpos (compute_linesegs (ascii ''abcd'') 1000 160 700) = [0, 2]
   \<and> sorted_wrt (<) (map textpos (compute_linesegs (ascii ''abcd'') 1000 160 700))
   \<and> length (filter (\<lambda>s. flags s = 0x40000 \<or> flags s = 0x60000)
        (compute_linesegs (ascii ''abcd'') 1000 160 700)) = 1
   \<and> length (filter (\<lambda>s. flags s = 0x20000 \<or> flags s = 0x60000)
        (compute_linesegs (ascii ''abcd'') 1000 160 700)) = 1
   \<and> flags (hd (compute_linesegs (ascii ''a'') 1000 160 700)) = 0x60000
   \<and> length (compute_linesegs [] 1000 160 700) = 1
   \<and> flags (hd (compute_linesegs [] 1000 160 700)) = 0x60000"
proof -
  have ne: "ascii ''abcd'' \<noteq> []" "ascii ''a'' \<noteq> []" by (simp_all add: ascii_def)
  have tp: "map textpos (compute_linesegs (ascii ''abcd'') 1000 160 700) = [0, 2]"
    by (simp add: compute_linesegs_def line_starts_of_def ascii_def Let_def)
  have one: "length (compute_linesegs (ascii ''a'') 1000 160 700) = 1"
    by (simp add: compute_linesegs_def line_starts_of_def ascii_def Let_def)
  show ?thesis
    using lineseg_offsets_and_flags [of "ascii ''abcd''" 1000 160 700]
      lineseg_offsets_and_flags [of "ascii ''a''" 1000 160 700]
      lineseg_offsets_and_flags [of "[]" 1000 160 700] ne tp one
    by (simp add: Let_def)
qed

section \<open>Properties of the math transliteration\<close>

lemma scan_sub_no_match:
  "(\<And>c cs. c \<in> set s \<Longrightarrow> m (c # cs) = None) \<Longrightarrow> scan_sub m 0 s = s"
  by (induction s) simp_all

lemma str_replace_no_bs: "backslash \<notin> set s \<Longrightarrow> str_replace (backslash # l) new s = s"
  unfolding str_replace_def re_sub_def
  by (rule scan_sub_no_match) (auto simp: m_literal_def)

lemma re_sub_frac_no_bs: "backslash \<notin> set s \<Longrightarrow> re_sub m_frac s = s"
  unfolding re_sub_def
  by (rule scan_sub_no_match) (auto simp: m_frac_def lit_def)

lemma re_sub_from_to_no_bs: "backslash \<notin> set s \<Longrightarrow> re_sub (m_from_to op) s = s"
  unfolding re_sub_def
  by (rule scan_sub_no_match) (auto simp: m_from_to_def lit_def)

lemma re_sub_sqrt_no_bs: "backslash \<notin> set s \<Longrightarrow> re_sub m_sqrt s = s"
  unfolding re_sub_def
  by (rule scan_sub_no_match) (auto simp: m_sqrt_def lit_def)

lemma re_sub_command_no_bs: "backslash \<notin> set s \<Longrightarrow> re_sub m_command s = s"
  unfolding re_sub_def
  by (rule scan_sub_no_match) (auto simp: m_command_def)

lemma replace_symbols_no_bs: "backslash \<notin> set s \<Longrightarrow> replace_symbols s = s"
  by (simp add: replace_symbols_def SYMBOL_TABLE_def str_replace_no_bs)

lemma set_strip_chars: "set (strip_chars P s) \<subseteq> set s"
  unfolding strip_chars_def
  by (metis set_dropWhileD set_rev subsetI)

lemma script_no_bs:
  "backslash \<notin> set s \<Longrightarrow>
   latex_to_hwp_script s = strip_chars (\<lambda>c. c = 36) (strip_chars py_isspace s)"
proof -
  assume a: "backslash \<notin> set s"
  have "backslash \<notin> set (strip_chars (\<lambda>c. c = 36) (strip_chars py_isspace s))"
    using a set_strip_chars by blast
  then show ?thesis
    by (simp add: latex_to_hwp_script_def Let_def re_sub_frac_no_bs re_sub_from_to_no_bs
        re_sub_sqrt_no_bs str_replace_no_bs replace_symbols_no_bs re_sub_command_no_bs)
qed

lemmas math_defs = latex_to_hwp_script_def re_sub_def str_replace_def replace_symbols_def
  SYMBOL_TABLE_def m_frac_def m_from_to_def m_sqrt_def m_command_def m_literal_def lit_def
  upto_char_def strip_chars_def py_isspace_def ascii_def backslash_def ascii_letter_def Let_def

text \<open>
  Claim C7. \<open>latex_to_hwp_script\<close> is a composition of terminating scans, so it returns a
  string for every input string. It maps \<open>\frac{1}{2}\<close> to \<open>{1} over {2}\<close>. The symbol
  rule maps its six commands to the spellings \<open>>=\<close>, \<open><=\<close>, \<open>times\<close>, \<open>cdot\<close>, \<open>inf\<close>,
  \<open>+-\<close>, and both the symbol rule and the whole pipeline leave each of these spellings
  unchanged. More generally the symbol rule leaves every string without a backslash
  unchanged, and on such a string the pipeline only strips the surrounding white space
  and dollar signs.
\<close>

theorem latex_to_hwp_script_total_idempotent:
  "(\<exists>r. latex_to_hwp_script s = r)
   \<and> latex_to_hwp_script (backslash # ascii ''frac{1}{2}'') = ascii ''{1} over {2}''
   \<and> map (\<lambda>(cmd, repl). replace_symbols cmd) SYMBOL_TABLE =
       [ascii ''>='', ascii ''<='', ascii ''times'', ascii ''cdot'', ascii ''inf'', ascii ''+-'']
   \<and> map (\<lambda>(cmd, repl). replace_symbols (replace_symbols cmd)) SYMBOL_TABLE =
       map (\<lambda>(cmd, repl). replace_symbols cmd) SYMBOL_TABLE
   \<and> map (\<lambda>(cmd, repl). latex_to_hwp_script (replace_symbols cmd)) SYMBOL_TABLE =
       map (\<lambda>(cmd, repl). replace_symbols cmd) SYMBOL_TABLE
   \<and> (backslash \<notin> set s \<longrightarrow>
         replace_symbols s = s
         \<and> latex_to_hwp_script s = strip_chars (\<lambda>c. c = 36) (strip_chars py_isspace s))"
proof -
  have frac: "latex_to_hwp_script (backslash # ascii ''frac{1}{2}'') = ascii ''{1} over {2}''"
    by (simp add: math_defs)
  have spell: "map (\<lambda>(cmd, repl). replace_symbols cmd) SYMBOL_TABLE =
       [ascii ''>='', ascii ''<='', ascii ''times'', ascii ''cdot'', ascii ''inf'', ascii ''+-'']"
    by (simp add: math_defs)
  have idem: "map (\<lambda>(cmd, repl). replace_symbols (replace_symbols cmd)) SYMBOL_TABLE =
       map (\<lambda>(cmd, repl). replace_symbols cmd) SYMBOL_TABLE"
    by (simp add: math_defs)
  have pipe: "map (\<lambda>(cmd, repl). latex_to_hwp_script (replace_symbols cmd)) SYMBOL_TABLE =
       map (\<lambda>(cmd, repl). replace_symbols cmd) SYMBOL_TABLE"
    by (simp add: math_defs)
  show ?thesis
    using frac spell idem pipe replace_symbols_no_bs script_no_bs by blast
qed

text \<open>
  The theorem of claim C7 at the already transliterated text \<open>a >= b\<close>, which has no
  backslash.
\<close>

theorem latex_to_hwp_script_witness:
  "replace_symbols (ascii ''a >= b'') = ascii ''a >= b''
   \<and> latex_to_hwp_script (ascii ''a >= b'') = ascii ''a >= b''"
proof -
  have nb: "backslash \<notin> set (ascii ''a >= b'')"
    by (simp add: ascii_def backslash_def)
  have st: "strip_chars (\<lambda>c. c = 36) (strip_chars py_isspace (ascii ''a >= b'')) =
      ascii ''a >= b''"
    by (simp add: strip_chars_def py_isspace_def ascii_def)
  show ?thesis
    using latex_to_hwp_script_total_idempotent [of "ascii ''a >= b''"] nb st by simp
qed

section \<open>Properties of the table grid\<close>

lemma collect_rows_eq:
  "collect_rows rows acc cc =
     (acc @ map (map blocks_text) (filter (\<lambda>cells. cells \<noteq> []) rows),
      fold max (map length rows) cc)"
proof (induction rows arbitrary: acc cc)
  case Nil
  then show ?case by simp
next
  case (Cons cells rows)
  show ?case
  proof (cases "cells = []")
    case True
    then show ?thesis by (simp add: Cons.IH)
  next
    case False
    then show ?thesis by (simp add: Cons.IH Let_def max.commute)
  qed
qed

lemma collect_bodies_eq:
  "collect_bodies bodies acc cc = collect_rows (concat (map snd bodies)) acc cc"
proof (induction bodies arbitrary: acc cc)
  case Nil
  then show ?case by simp
next
  case (Cons b bodies)
  obtain ih br where b: "b = (ih, br)" by (cases b)
  show ?case
    by (simp add: b Cons.IH collect_rows_eq)
qed

lemma normalize_table_eq:
  "normalize_table head_rows table_bodies =
     (let rows = input_rows head_rows table_bodies;
          col_count = fold max (map length rows) 0
      in (map (pad_row col_count) (map (map blocks_text) (filter (\<lambda>cells. cells \<noteq> []) rows)),
          col_count))"
  by (simp add: normalize_table_def collect_rows_eq collect_bodies_eq input_rows_def Let_def)

lemma fold_max_ge: "x \<in> set xs \<Longrightarrow> x \<le> fold max xs (c::nat)"
proof (induction xs arbitrary: c)
  case Nil
  then show ?case by simp
next
  case (Cons a xs)
  have mono: "c \<le> fold max xs c" for c :: nat
    by (induction xs arbitrary: c) (auto intro: order_trans [OF max.cobounded2])
  show ?case
  proof (cases "x = a")
    case True
    then show ?thesis using mono [of "max a c"] by simp
  next
    case False
    then show ?thesis using Cons by simp
  qed
qed

lemma fold_max_Max: "fold max xs (0::nat) = Max (set (0 # xs))"
  using Max.set_eq_fold [of 0 xs] by simp

text \<open>
  Claim C5. For every table block, with \<open>rows\<close> the head rows followed by the body rows
  of every body: every row of the normalized grid has exactly \<open>col_count\<close> entries;
  \<open>col_count\<close> is the largest row length (0 when there are no rows); the grid holds, for
  every row with at least one cell and in order, the cell texts followed by empty strings
  up to \<open>col_count\<close>; and when the grid has no rows or \<open>col_count\<close> is zero the block
  produces no element (and leaves the paragraph counter as it was), otherwise exactly one.
\<close>

theorem table_grid_rectangular:
  "let rows = input_rows head_rows table_bodies;
       (grid, col_count) = normalize_table head_rows table_bodies
   in (\<forall>r \<in> set grid. length r = col_count)
      \<and> col_count = Max (set (0 # map length rows))
      \<and> grid = map (\<lambda>cells. map blocks_text cells @ replicate (col_count - length cells) [])
                 (filter (\<lambda>cells. cells \<noteq> []) rows)
      \<and> (grid = [] \<or> col_count = 0 \<longrightarrow>
           convert_block (Table caption head_rows table_bodies) indent_level counter =
             ([], counter))
      \<and> length (fst (convert_block (Table caption head_rows table_bodies) indent_level counter)) =
           (if grid = [] \<or> col_count = 0 then 0 else 1)"
proof -
  define rows where "rows = input_rows head_rows table_bodies"
  define cc where "cc = fold max (map length rows) 0"
  define grid where
    "grid = map (pad_row cc) (map (map blocks_text) (filter (\<lambda>cells. cells \<noteq> []) rows))"
  have nt: "normalize_table head_rows table_bodies = (grid, cc)"
    by (simp add: normalize_table_eq Let_def grid_def cc_def rows_def)
  have le: "length cells \<le> cc" if "cells \<in> set rows" for cells
    using that by (simp add: cc_def fold_max_ge)
  have rect: "\<forall>r \<in> set grid. length r = cc"
    using le by (auto simp: grid_def pad_row_def)
  have mx: "cc = Max (set (0 # map length rows))"
    unfolding cc_def by (rule fold_max_Max)
  have gr: "grid = map (\<lambda>cells. map blocks_text cells @ replicate (cc - length cells) [])
                 (filter (\<lambda>cells. cells \<noteq> []) rows)"
    by (simp add: grid_def pad_row_def o_def)
  have drop: "convert_block (Table caption head_rows table_bodies) indent_level counter =
             ([], counter)" if "grid = [] \<or> cc = 0"
    using that by (auto simp: convert_table_def nt)
  have len: "length (fst (convert_block (Table caption head_rows table_bodies) indent_level counter)) =
           (if grid = [] \<or> cc = 0 then 0 else 1)"
    by (auto simp: convert_table_def nt split: prod.splits)
  show ?thesis
    unfolding Let_def rows_def [symmetric] nt prod.case
    using rect mx gr drop len by blast
qed

text \<open>
  The theorem of claim C5 at the table with head row \<open>A\<close>, \<open>B\<close> and one body row \<open>1\<close>
  (the grid is \<open>A\<close>, \<open>B\<close> over \<open>1\<close> and the empty string, with two columns), and at a
  table without rows, which produces nothing.
\<close>

theorem table_grid_rectangular_witness:
  "normalize_table [[[Plain [Str (ascii ''A'')]], [Plain [Str (ascii ''B'')]]]]
       [([], [[[Plain [Str (ascii ''1'')]]]])] =
     ([[ascii ''A'', ascii ''B''], [ascii ''1'', []]], 2)
   \<and> map length (fst (normalize_table [[[Plain [Str (ascii ''A'')]], [Plain [Str (ascii ''B'')]]]]
       [([], [[[Plain [Str (ascii ''1'')]]]])])) = [2, 2]
   \<and> convert_block (Table [] [] []) 0 initial_para_id_counter = ([], initial_para_id_counter)"
proof -
  have nt: "normalize_table [[[Plain [Str (ascii ''A'')]], [Plain [Str (ascii ''B'')]]]]
       [([], [[[Plain [Str (ascii ''1'')]]]])] =
     ([[ascii ''A'', ascii ''B''], [ascii ''1'', []]], 2)"
    by (simp add: normalize_table_def pad_row_def Let_def)
  have empty: "normalize_table [] [] = ([], 0)"
    by (simp add: normalize_table_def)
  show ?thesis
    using table_grid_rectangular [of "[[[Plain [Str (ascii ''A'')]], [Plain [Str (ascii ''B'')]]]]"
        "[([], [[[Plain [Str (ascii ''1'')]]]])]" "[]" 0 initial_para_id_counter]
      table_grid_rectangular [of "[]" "[]" "[]" 0 initial_para_id_counter] nt empty
    by (simp add: Let_def input_rows_def)
qed

section \<open>Properties of list numbering\<close>

lemma replace_first_split:
  "replace_first old new s =
     (case split_first old s of None \<Rightarrow> s | Some (before, after) \<Rightarrow> before @ new @ after)"
  by (induction s) (auto split: option.splits)

lemma split_first_Some:
  "split_first pat s = Some (before, after) \<Longrightarrow> s = before @ pat @ after"
proof (induction s arbitrary: before)
  case Nil
  then show ?case by simp
next
  case (Cons c cs)
  show ?case
  proof (cases "prefix pat (c # cs)")
    case True
    then show ?thesis using Cons.prems
      by (metis append_Nil append_eq_conv_conj option.inject prefix_def prod.inject split_first.simps(2))
  next
    case False
    then show ?thesis using Cons by (auto split: option.splits)
  qed
qed

lemma replace_first_skip:
  "x \<notin> set a \<Longrightarrow> replace_first (x # p) new (a @ s) = a @ replace_first (x # p) new s"
  by (induction a) auto

lemma str_nat_digits: "c \<in> set (str_nat n) \<Longrightarrow> 48 \<le> c \<and> c \<le> 57"
proof (induction n arbitrary: c rule: str_nat.induct)
  case (1 n)
  show ?case
  proof (cases "n < 10")
    case True
    then show ?thesis using "1.prems" by (subst (asm) str_nat.simps) auto
  next
    case False
    have "n mod 10 < 10" by simp
    then show ?thesis using False "1.prems" "1.IH"
      by (subst (asm) str_nat.simps) auto
  qed
qed

lemma lt_notin_str_nat [simp]: "60 \<notin> set (str_nat n)"
  using str_nat_digits [of 60 n] by auto

lemma lt_notin_str_int [simp]: "60 \<notin> set (str_int i)"
  by (auto simp: str_int_def)

lemma mark_paragraph:
  "60 \<notin> set pid \<Longrightarrow>
   replace_first text_run_tag (text_run_tag @ marker)
     (paragraph_markup pid para_pr_id style_id char_pr_id safe_text lineseg) =
   paragraph_markup pid para_pr_id style_id char_pr_id (marker @ safe_text) lineseg"
  by (simp add: paragraph_markup_def text_run_tag_def ascii_def replace_first_skip
     )

lemma convert_ordered_items_append:
  "convert_ordered_items (items1 @ items2) start_num idx indent_level counter =
     (let (parts1, counter1) = convert_ordered_items items1 start_num idx indent_level counter;
          (parts2, counter2) =
            convert_ordered_items items2 start_num (idx + length items1) indent_level counter1
      in (parts1 @ parts2, counter2))"
proof (induction items1 arbitrary: idx counter)
  case Nil
  then show ?case by (simp split: prod.splits)
next
  case (Cons item items1)
  show ?case
    by (simp add: Cons.IH Let_def split: prod.splits)
qed

lemma make_paragraph_xml_eq:
  "make_paragraph_xml t 0 0 0 counter =
     (paragraph_markup (str_nat (counter + 1)) 0 0 0 (xml_escape t)
        (compute_lineseg_xml t 1000 160 42520), counter + 1)"
  by (simp add: make_paragraph_xml_def next_para_id_def CHAR_HEIGHT_MAP_def
      CHAR_HEIGHT_NORMAL_def LINE_SPACING_PCT_def PAGE_TEXT_WIDTH_def xml_escape_def
      str_replace_def re_sub_def)

lemma convert_para_text:
  "single_math c = None \<Longrightarrow>
   convert_blocks [Para c] indent_level counter =
     ([paragraph_markup (str_nat (counter + 1)) 0 0 0
         (xml_escape (indent_prefix indent_level @ extract_text c))
         (compute_lineseg_xml (indent_prefix indent_level @ extract_text c) 1000 160 42520)],
      counter + 1)"
  by (simp add: convert_para_def make_paragraph_xml_eq)

lemma script_x: "latex_to_hwp_script [120] = [120]" "latex_to_hwp_script [121] = [121]"
  by (simp_all add: math_defs)

lemma esc_x: "xml_escape [120] = [120]" "xml_escape [121] = [121]"
  by (simp_all add: xml_escape_def str_replace_def re_sub_def m_literal_def ascii_def)

lemma eq_para:
  "make_equation_paragraph_xml [120] c = (equation_markup (str_nat (c + 1)) [120], c + 1)"
  "make_equation_paragraph_xml [121] c = (equation_markup (str_nat (c + 1)) [121], c + 1)"
  by (simp_all add: make_equation_paragraph_xml_def next_para_id_def script_x esc_x)

lemma mark_equation:
  "replace_first text_run_tag (text_run_tag @ marker) (equation_markup (str_nat n) [120]) =
     equation_markup (str_nat n) [120]"
  "replace_first text_run_tag (text_run_tag @ marker) (equation_markup (str_nat n) [121]) =
     equation_markup (str_nat n) [121]"
  by (simp_all add: equation_markup_def text_run_tag_def ascii_def replace_first_skip)

text \<open>
  Claim C8, as stated: every item that produces an element has the running number put
  before its first text run, and a list starting at 3 with two items of one paragraph
  each gives paragraphs that begin with \<open>3. \<close> and \<open>4. \<close>. When the paragraph of an
  item is a single math inline, the item becomes an equation element, which has no text
  run, and the replacement of the first \<open><hp:t>\<close> changes nothing: neither element
  below carries a number.
\<close>

theorem ordered_list_math_items_unnumbered:
  \<open>convert_block
     (OrderedList 3 [[Para [Math (ascii ''x'')]], [Para [Math (ascii ''y'')]]]) 0
     initial_para_id_counter =
   ([ascii ''<hp:p id="3121190099" paraPrIDRef="0" styleIDRef="0" pageBreak="'' @
      ascii ''0" columnBreak="0" merged="0"><hp:run charPrIDRef="0"><hp:equati'' @
      ascii ''on version="eqEdit" baseLine="0" textColor="#000000" baseUnit="1'' @
      ascii ''000" lineMode="0" font=""><hp:script>x</hp:script></hp:equation>'' @
      ascii ''</hp:run><hp:linesegarray><hp:lineseg textpos="0" vertpos="0" ve'' @
      ascii ''rtsize="1600" textheight="1600" baseline="1360" spacing="400" ho'' @
      ascii ''rzpos="0" horzsize="42520" flags="393216"/></hp:linesegarray></h'' @
      ascii ''p:p>'',
     ascii ''<hp:p id="3121190100" paraPrIDRef="0" styleIDRef="0" pageBreak="'' @
      ascii ''0" columnBreak="0" merged="0"><hp:run charPrIDRef="0"><hp:equati'' @
      ascii ''on version="eqEdit" baseLine="0" textColor="#000000" baseUnit="1'' @
      ascii ''000" lineMode="0" font=""><hp:script>y</hp:script></hp:equation>'' @
      ascii ''</hp:run><hp:linesegarray><hp:lineseg textpos="0" vertpos="0" ve'' @
      ascii ''rtsize="1600" textheight="1600" baseline="1360" spacing="400" ho'' @
      ascii ''rzpos="0" horzsize="42520" flags="393216"/></hp:linesegarray></h'' @
      ascii ''p:p>''],
    3121190100)\<close>
proof -
  have ids: "str_nat 3121190099 = ascii ''3121190099''" "str_nat 3121190100 = ascii ''3121190100''"
    by (simp_all add: str_nat.simps ascii_def)
  have "convert_block
     (OrderedList 3 [[Para [Math [120]]], [Para [Math [121]]]]) 0 3121190098 =
     ([equation_markup (str_nat 3121190099) [120], equation_markup (str_nat 3121190100) [121]],
      3121190100)"
    by (simp add: convert_para_def eq_para mark_first_def mark_equation)
  then show ?thesis
    by (simp add: initial_para_id_counter_def ids equation_markup_def ascii_def)
qed

text \<open>
  Claim C8, amended. In an ordered list with start value \<open>start_num\<close>, the item that
  follows the items \<open>before\<close> has its elements marked with \<open>start_num + length before\<close>,
  whatever the items before it produced; marking an item without elements gives no
  element, and marking an item with elements inserts the number, a full stop and a space
  right after the first \<open><hp:t>\<close> of the first element and changes nothing else, so that
  a first element without \<open><hp:t>\<close> (the equation element of a paragraph that is a
  single math inline) gets no number. An ordered list starting at 3 with two items of
  one paragraph each, neither a single math inline, gives two paragraphs whose text runs
  begin with \<open>3. \<close> and \<open>4. \<close>.
\<close>

theorem ordered_list_numbering:
  "convert_block (OrderedList start_num (before @ item # after)) indent_level counter =
     (let (pre, counter1) = convert_block (OrderedList start_num before) indent_level counter;
          (item_parts, counter2) = convert_blocks item indent_level counter1;
          (post, counter3) =
            convert_ordered_items after start_num (length before + 1) indent_level counter2
      in (pre @ mark_first (str_int (start_num + int (length before)) @ ascii ''. '') item_parts
            @ post, counter3))
   \<and> mark_first marker [] = []
   \<and> mark_first marker (first # others) =
       (case split_first text_run_tag first of
          None \<Rightarrow> first
        | Some (a, b) \<Rightarrow> a @ text_run_tag @ marker @ b) # others
   \<and> (single_math xs = None \<and> single_math ys = None \<longrightarrow>
        convert_block (OrderedList 3 [[Para xs], [Para ys]]) indent_level counter =
          ([paragraph_markup (str_nat (counter + 1)) 0 0 0
              (ascii ''3. '' @ xml_escape (indent_prefix indent_level @ extract_text xs))
              (compute_lineseg_xml (indent_prefix indent_level @ extract_text xs) 1000 160 42520),
            paragraph_markup (str_nat (counter + 2)) 0 0 0
              (ascii ''4. '' @ xml_escape (indent_prefix indent_level @ extract_text ys))
              (compute_lineseg_xml (indent_prefix indent_level @ extract_text ys) 1000 160 42520)],
           counter + 2))"
proof -
  have pos: "convert_block (OrderedList start_num (before @ item # after)) indent_level counter =
     (let (pre, counter1) = convert_block (OrderedList start_num before) indent_level counter;
          (item_parts, counter2) = convert_blocks item indent_level counter1;
          (post, counter3) =
            convert_ordered_items after start_num (length before + 1) indent_level counter2
      in (pre @ mark_first (str_int (start_num + int (length before)) @ ascii ''. '') item_parts
            @ post, counter3))"
    by (simp add: convert_ordered_items_append Let_def split: prod.splits)
  have m0: "mark_first marker [] = []"
    by (simp add: mark_first_def)
  have m1: "mark_first marker (first # others) =
       (case split_first text_run_tag first of
          None \<Rightarrow> first
        | Some (a, b) \<Rightarrow> a @ text_run_tag @ marker @ b) # others"
    by (simp add: mark_first_def replace_first_split split: option.splits)
  have sc: "convert_block (OrderedList 3 [[Para xs], [Para ys]]) indent_level counter =
          ([paragraph_markup (str_nat (counter + 1)) 0 0 0
              (ascii ''3. '' @ xml_escape (indent_prefix indent_level @ extract_text xs))
              (compute_lineseg_xml (indent_prefix indent_level @ extract_text xs) 1000 160 42520),
            paragraph_markup (str_nat (counter + 2)) 0 0 0
              (ascii ''4. '' @ xml_escape (indent_prefix indent_level @ extract_text ys))
              (compute_lineseg_xml (indent_prefix indent_level @ extract_text ys) 1000 160 42520)],
           counter + 2)"
    if "single_math xs = None" "single_math ys = None"
  proof -
    have s3: "str_int 3 = ascii ''3''" and s4: "str_int 4 = ascii ''4''"
      by (simp_all add: str_int_def str_nat.simps ascii_def)
    show ?thesis
      using that
      by (simp add: convert_para_def make_paragraph_xml_eq mark_first_def mark_paragraph
          s3 s4 ascii_def)
  qed
  show ?thesis using pos m0 m1 sc by blast
qed

text \<open>
  The theorem of claim C8 at the list starting at 3 whose items are the paragraphs \<open>a\<close>
  and \<open>b\<close>, converted at indent level 0 from the initial paragraph counter.
\<close>

theorem ordered_list_numbering_witness:
  \<open>convert_block (OrderedList 3 [[Para [Str (ascii ''a'')]], [Para [Str (ascii ''b'')]]]) 0
     initial_para_id_counter =
   ([ascii ''<hp:p id="3121190099" paraPrIDRef="0" styleIDRef="0" pageBreak="'' @
      ascii ''0" columnBreak="0" merged="0"><hp:run charPrIDRef="0"><hp:t>3. a'' @
      ascii ''</hp:t></hp:run><hp:linesegarray><hp:lineseg textpos="0" vertpos'' @
      ascii ''="0" vertsize="1000" textheight="1000" baseline="850" spacing="6'' @
      ascii ''00" horzpos="0" horzsize="42520" flags="393216"/></hp:linesegarr'' @
      ascii ''ay></hp:p>'',
     ascii ''<hp:p id="3121190100" paraPrIDRef="0" styleIDRef="0" pageBreak="'' @
      ascii ''0" columnBreak="0" merged="0"><hp:run charPrIDRef="0"><hp:t>4. b'' @
      ascii ''</hp:t></hp:run><hp:linesegarray><hp:lineseg textpos="0" vertpos'' @
      ascii ''="0" vertsize="1000" textheight="1000" baseline="850" spacing="6'' @
      ascii ''00" horzpos="0" horzsize="42520" flags="393216"/></hp:linesegarr'' @
      ascii ''ay></hp:p>''],
    3121190100)\<close>
proof -
  have sm: "single_math [Str (ascii ''a'')] = None \<and> single_math [Str (ascii ''b'')] = None"
    by simp
  have esc: "xml_escape [97] = [97]" "xml_escape [98] = [98]"
    by (simp_all add: xml_escape_def str_replace_def re_sub_def m_literal_def ascii_def)
  have ids: "str_nat 3121190099 = ascii ''3121190099''" "str_nat 3121190100 = ascii ''3121190100''"
    by (simp_all add: str_nat.simps ascii_def)
  have seg: "compute_lineseg_xml [c] 1000 160 42520 =
      ascii ''<hp:linesegarray><hp:lineseg textpos=\"0\" vertpos=\"0\" vertsize=\"1000\"'' @
      ascii '' textheight=\"1000\" baseline=\"850\" spacing=\"600\" horzpos=\"0\"'' @
      ascii '' horzsize=\"42520\" flags=\"393216\"/></hp:linesegarray>''" for c
    by (simp add: compute_lineseg_xml_def compute_linesegs_def line_starts_of_def
        lineseg_xml_def seg_flags_def trunc_div_def str_int_def str_nat.simps ascii_def Let_def)
  show ?thesis
    using ordered_list_numbering [of 3 "[]" "[Para [Str (ascii ''a'')]]"
        "[[Para [Str (ascii ''b'')]]]" 0 initial_para_id_counter "[]" "[]" "[]"
        "[Str (ascii ''a'')]" "[Str (ascii ''b'')]"] sm
    by (simp add: initial_para_id_counter_def indent_prefix_def esc ids seg
        paragraph_markup_def str_int_def str_nat.simps ascii_def)
qed

section \<open>Properties of the section builder\<close>

lemma make_paragraphs_empty:
  "fst (make_paragraphs ls cid c) = [] \<Longrightarrow> snd (make_paragraphs ls cid c) = c"
  by (cases ls) (auto simp: Let_def split: prod.splits)

lemma mark_first_empty: "mark_first m ps = [] \<longleftrightarrow> ps = []"
  by (cases ps) (auto simp: mark_first_def)

lemma convert_no_parts:
  "(fst (convert_blocks bs i c) = [] \<longrightarrow> snd (convert_blocks bs i c) = c)"
  "(fst (convert_block b i c) = [] \<longrightarrow> snd (convert_block b i c) = c)"
  "(fst (convert_bullet_items its i c) = [] \<longrightarrow> snd (convert_bullet_items its i c) = c)"
  "(fst (convert_ordered_items its st idx i c) = [] \<longrightarrow>
      snd (convert_ordered_items its st idx i c) = c)"
  "(fst (convert_definition_items dits i c) = [] \<longrightarrow> snd (convert_definition_items dits i c) = c)"
  "(fst (convert_definitions ds i c) = [] \<longrightarrow> snd (convert_definitions ds i c) = c)"
proof (induction bs i c and b i c and its i c and its st idx i c and dits i c and ds i c
    rule: convert_blocks_convert_block_convert_bullet_items_convert_ordered_items_convert_definition_items_convert_definitions.induct)
  case (1 indent_level counter)
  then show ?case by simp
next
  case (2 block blocks indent_level counter)
  then show ?case
    by (auto simp: Let_def split: prod.splits)
next
  case (3 c indent_level counter)
  then show ?case by (auto simp: convert_para_def Let_def split: option.splits prod.splits)
next
  case (4 c indent_level counter)
  then show ?case by (auto simp: convert_para_def Let_def split: option.splits prod.splits)
next
  case (5 level c indent_level counter)
  then show ?case by (auto simp: convert_header_def Let_def split: option.splits prod.splits)
next
  case (6 code_text indent_level counter)
  then show ?case by (simp add: convert_code_block_def make_paragraphs_empty)
next
  case (7 items indent_level counter)
  then show ?case by simp
next
  case (8 start_num items indent_level counter)
  then show ?case by simp
next
  case (9 c indent_level counter)
  then show ?case by simp
next
  case (10 caption head_rows table_bodies indent_level counter)
  then show ?case by (auto simp: convert_table_def Let_def split: prod.splits)
next
  case (11 indent_level counter)
  then show ?case by (auto simp: convert_rule_def Let_def split: prod.splits)
next
  case (12 c indent_level counter)
  then show ?case by simp
next
  case (13 items indent_level counter)
  then show ?case by simp
next
  case (14 lines indent_level counter)
  then show ?case by (simp add: convert_line_block_def make_paragraphs_empty)
next
  case (15 t indent_level counter)
  then show ?case by simp
next
  case (16 indent_level counter)
  then show ?case by simp
next
  case (17 item_blocks items indent_level counter)
  then show ?case by (auto simp: Let_def mark_first_empty split: prod.splits)
next
  case (18 start_num idx indent_level counter)
  then show ?case by simp
next
  case (19 item_blocks items start_num idx indent_level counter)
  then show ?case by (auto simp: Let_def mark_first_empty split: prod.splits)
next
  case (20 indent_level counter)
  then show ?case by simp
next
  case (21 term_inlines definitions items indent_level counter)
  then show ?case by (auto simp: Let_def split: prod.splits)
next
  case (22 indent_level counter)
  then show ?case by simp
next
  case (23 def_blocks definitions indent_level counter)
  then show ?case by (auto simp: Let_def split: prod.splits)
qed

lemma append_paragraph_if_empty:
  "fst (append_paragraph_if cond t sid pid cid st) = [] \<longleftrightarrow> \<not> cond \<and> fst st = []"
  by (simp add: append_paragraph_if_def split: prod.splits)

lemma append_paragraph_if_False: "append_paragraph_if False t sid pid cid st = st"
  by (simp add: append_paragraph_if_def)

lemma title_block_empty:
  assumes "fst (build_title_block_xml title subtitle author date_str counter) = []"
  shows "build_title_block_xml title subtitle author date_str counter = ([], counter)"
proof -
  have "title = [] \<and> subtitle = [] \<and> author = [] \<and> date_str = []"
    using assms by (simp add: build_title_block_xml_def Let_def append_paragraph_if_empty)
  then show ?thesis
    by (simp add: build_title_block_xml_def Let_def append_paragraph_if_False)
qed

lemma make_paragraph_xml_empty:
  "make_paragraph_xml [] 0 0 0 counter =
     (paragraph_markup (str_nat (counter + 1)) 0 0 0 []
        (compute_lineseg_xml [] 1000 160 42520), counter + 1)"
  by (simp add: make_paragraph_xml_def next_para_id_def CHAR_HEIGHT_MAP_def
      LINE_SPACING_PCT_def PAGE_TEXT_WIDTH_def)

lemma section_elements_empty:
  assumes "fst (build_title_block_xml title subtitle author date_str counter) = []"
    and "fst (convert_blocks blocks 0 counter) = []"
  shows "section_elements blocks title subtitle author date_str counter =
     ([], [paragraph_markup (str_nat (counter + 1)) 0 0 0 []
             (compute_lineseg_xml [] 1000 160 42520)], counter + 1)"
proof -
  have tb: "build_title_block_xml title subtitle author date_str counter = ([], counter)"
    using assms(1) by (rule title_block_empty)
  have "snd (convert_blocks blocks 0 counter) = counter"
    using assms(2) convert_no_parts(1) by blast
  then have cb: "convert_blocks blocks 0 counter = ([], counter)"
    using assms(2) by (metis prod.collapse)
  show ?thesis
    by (simp add: section_elements_def tb cb make_paragraph_xml_empty)
qed

lemma section_elements_nonempty:
  assumes "section_elements blocks title subtitle author date_str counter = (tb, cp, c)"
  shows "tb @ cp \<noteq> []"
proof -
  obtain tb0 c1 where t: "build_title_block_xml title subtitle author date_str counter = (tb0, c1)"
    by (cases "build_title_block_xml title subtitle author date_str counter")
  obtain cp0 c2 where b: "convert_blocks blocks 0 c1 = (cp0, c2)"
    by (cases "convert_blocks blocks 0 c1")
  obtain p c3 where m: "make_paragraph_xml [] 0 0 0 c2 = (p, c3)"
    by (cases "make_paragraph_xml [] 0 0 0 c2")
  show ?thesis
    using assms by (auto simp: section_elements_def t b m split: if_splits)
qed

lemma paragraph_markup_open:
  "prefix paragraph_open (paragraph_markup pid a b c t l)"
  by (simp add: paragraph_markup_def paragraph_open_def ascii_def)

lemma make_paragraph_xml_open:
  "prefix paragraph_open (fst (make_paragraph_xml t sid pid cid c))"
  by (simp add: make_paragraph_xml_def next_para_id_def Let_def paragraph_markup_open)

lemma equation_open:
  "prefix paragraph_open (fst (make_equation_paragraph_xml l c))"
  by (simp add: make_equation_paragraph_xml_def next_para_id_def Let_def equation_markup_def
      paragraph_open_def ascii_def)

lemma table_open:
  "prefix paragraph_open (fst (make_table_xml rows cc cap c))"
proof (cases "cap = []")
  case True
  then show ?thesis
    by (simp add: make_table_xml_def next_para_id_def Let_def table_open_markup_def
        paragraph_open_def ascii_def split: prod.splits)
next
  case False
  obtain p c0 where m: "make_paragraph_xml cap 22 19 0 c = (p, c0)"
    by (cases "make_paragraph_xml cap 22 19 0 c")
  have "prefix paragraph_open p"
    using make_paragraph_xml_open [of cap 22 19 0 c] by (simp add: m)
  then show ?thesis using False
    by (simp add: make_table_xml_def next_para_id_def Let_def m split: prod.splits)
qed

lemma mark_keeps_open:
  assumes "prefix paragraph_open e"
  shows "prefix paragraph_open (replace_first text_run_tag (text_run_tag @ m) e)"
proof -
  obtain r where e: "e = paragraph_open @ r"
    using assms by (auto simp: prefix_def)
  show ?thesis
    by (simp add: e paragraph_open_def text_run_tag_def ascii_def)
qed

lemma mark_first_open:
  "\<forall>e \<in> set ps. prefix paragraph_open e \<Longrightarrow>
   \<forall>e \<in> set (mark_first m ps). prefix paragraph_open e"
  by (cases ps) (auto simp: mark_first_def mark_keeps_open)

lemma make_paragraphs_open:
  "\<forall>e \<in> set (fst (make_paragraphs ls cid c)). prefix paragraph_open e"
proof (induction ls arbitrary: c)
  case Nil
  then show ?case by simp
next
  case (Cons l ls)
  obtain p c1 where m: "make_paragraph_xml l 0 0 cid c = (p, c1)"
    by (cases "make_paragraph_xml l 0 0 cid c")
  have "prefix paragraph_open p"
    using make_paragraph_xml_open [of l 0 0 cid c] by (simp add: m)
  then show ?case using Cons [of c1]
    by (simp add: m split: prod.splits)
qed

lemma convert_open:
  "\<forall>e \<in> set (fst (convert_blocks bs i c)). prefix paragraph_open e"
  "\<forall>e \<in> set (fst (convert_block b i c)). prefix paragraph_open e"
  "\<forall>e \<in> set (fst (convert_bullet_items its i c)). prefix paragraph_open e"
  "\<forall>e \<in> set (fst (convert_ordered_items its st idx i c)). prefix paragraph_open e"
  "\<forall>e \<in> set (fst (convert_definition_items dits i c)). prefix paragraph_open e"
  "\<forall>e \<in> set (fst (convert_definitions ds i c)). prefix paragraph_open e"
proof (induction bs i c and b i c and its i c and its st idx i c and dits i c and ds i c
    rule: convert_blocks_convert_block_convert_bullet_items_convert_ordered_items_convert_definition_items_convert_definitions.induct)
  case (1 indent_level counter)
  then show ?case by simp
next
  case (2 block blocks indent_level counter)
  then show ?case
    by (auto simp: Let_def split: prod.splits)
next
  case (3 c indent_level counter)
  then show ?case
    using make_paragraph_xml_open equation_open
    by (auto simp: convert_para_def Let_def split: option.splits prod.splits) (metis fst_conv)+
next
  case (4 c indent_level counter)
  then show ?case
    using make_paragraph_xml_open equation_open
    by (auto simp: convert_para_def Let_def split: option.splits prod.splits) (metis fst_conv)+
next
  case (5 level c indent_level counter)
  then show ?case
    using make_paragraph_xml_open
    by (auto simp: convert_header_def Let_def split: option.splits prod.splits) (metis fst_conv)+
next
  case (6 code_text indent_level counter)
  then show ?case by (simp add: convert_code_block_def make_paragraphs_open)
next
  case (7 items indent_level counter)
  then show ?case by simp
next
  case (8 start_num items indent_level counter)
  then show ?case by simp
next
  case (9 c indent_level counter)
  then show ?case by simp
next
  case (10 caption head_rows table_bodies indent_level counter)
  then show ?case
    using table_open
    by (auto simp: convert_table_def Let_def split: prod.splits) (metis fst_conv)
next
  case (11 indent_level counter)
  then show ?case
    using make_paragraph_xml_open
    by (auto simp: convert_rule_def Let_def split: prod.splits) (metis fst_conv)
next
  case (12 c indent_level counter)
  then show ?case by simp
next
  case (13 items indent_level counter)
  then show ?case by simp
next
  case (14 lines indent_level counter)
  then show ?case by (simp add: convert_line_block_def make_paragraphs_open)
next
  case (15 t indent_level counter)
  then show ?case by simp
next
  case (16 indent_level counter)
  then show ?case by simp
next
  case (17 item_blocks items indent_level counter)
  obtain ps c1 where a: "convert_blocks item_blocks indent_level counter = (ps, c1)"
    by (cases "convert_blocks item_blocks indent_level counter")
  obtain os c2 where b: "convert_bullet_items items indent_level c1 = (os, c2)"
    by (cases "convert_bullet_items items indent_level c1")
  have "\<forall>e \<in> set ps. prefix paragraph_open e" using 17(1) a by simp
  then have "\<forall>e \<in> set (mark_first [0x2022, 32] ps). prefix paragraph_open e"
    by (rule mark_first_open)
  moreover have "\<forall>e \<in> set os. prefix paragraph_open e"
    using 17(2) [of "(ps, c1)" ps c1] a b by simp
  ultimately show ?case by (auto simp: a b)
next
  case (18 start_num idx indent_level counter)
  then show ?case by simp
next
  case (19 item_blocks items start_num idx indent_level counter)
  obtain ps c1 where a: "convert_blocks item_blocks indent_level counter = (ps, c1)"
    by (cases "convert_blocks item_blocks indent_level counter")
  obtain os c2 where b:
    "convert_ordered_items items start_num (Suc idx) indent_level c1 = (os, c2)"
    by (cases "convert_ordered_items items start_num (Suc idx) indent_level c1")
  have "\<forall>e \<in> set ps. prefix paragraph_open e" using 19(1) a by simp
  then have "\<forall>e \<in> set (mark_first (str_int (start_num + int idx) @ ascii ''. '') ps).
      prefix paragraph_open e"
    by (rule mark_first_open)
  moreover have "\<forall>e \<in> set os. prefix paragraph_open e"
    using 19(2) [of "(ps, c1)" ps c1] a b by simp
  ultimately show ?case by (auto simp: a b Let_def)
next
  case (20 indent_level counter)
  then show ?case by simp
next
  case (21 term_inlines definitions items indent_level counter)
  then show ?case
    using make_paragraph_xml_open
    by (auto simp: Let_def convert_term_def split: prod.splits) (metis fst_conv)
next
  case (22 indent_level counter)
  then show ?case by simp
next
  case (23 def_blocks definitions indent_level counter)
  then show ?case by (auto simp: Let_def split: prod.splits)
qed

lemma append_paragraph_if_open:
  assumes "\<forall>e \<in> set (fst st). prefix paragraph_open e"
  shows "\<forall>e \<in> set (fst (append_paragraph_if cond t sid pid cid st)). prefix paragraph_open e"
proof -
  obtain p c1 where m: "make_paragraph_xml t sid pid cid (snd st) = (p, c1)"
    by (cases "make_paragraph_xml t sid pid cid (snd st)")
  have "prefix paragraph_open p"
    using make_paragraph_xml_open [of t sid pid cid "snd st"] by (simp add: m)
  then show ?thesis using assms by (auto simp: append_paragraph_if_def m)
qed

lemma title_block_open:
  "\<forall>e \<in> set (fst (build_title_block_xml title subtitle author date_str counter)).
     prefix paragraph_open e"
  unfolding build_title_block_xml_def Let_def
  by (intro append_paragraph_if_open) simp

lemma section_elements_open:
  assumes "section_elements blocks title subtitle author date_str counter = (tb, cp, c)"
  shows "\<forall>e \<in> set (tb @ cp). prefix paragraph_open e"
proof -
  obtain tb0 c1 where t: "build_title_block_xml title subtitle author date_str counter = (tb0, c1)"
    by (cases "build_title_block_xml title subtitle author date_str counter")
  obtain cp0 c2 where b: "convert_blocks blocks 0 c1 = (cp0, c2)"
    by (cases "convert_blocks blocks 0 c1")
  obtain p c3 where m: "make_paragraph_xml [] 0 0 0 c2 = (p, c3)"
    by (cases "make_paragraph_xml [] 0 0 0 c2")
  have 1: "\<forall>e \<in> set tb0. prefix paragraph_open e"
    using title_block_open [of title subtitle author date_str counter] by (simp add: t)
  have 2: "\<forall>e \<in> set cp0. prefix paragraph_open e"
    using convert_open(1) [of blocks 0 c1] by (simp add: b)
  have 3: "prefix paragraph_open p"
    using make_paragraph_xml_open [of "[]" 0 0 0 c2] by (simp add: m)
  show ?thesis
    using assms 1 2 3 by (auto simp: section_elements_def t b m split: if_splits)
qed

text \<open>
  Claim C10. Whenever the skeleton's section part has the marks the builder looks for,
  the builder returns a section. If the metadata gives no title-block paragraph and the
  blocks convert to no element, the section is the skeleton's header and opening tag,
  the skeleton's first paragraph, exactly one paragraph with an empty text run (numbered
  with the next paragraph id) and the closing tag. In every case the list of generated
  elements is not empty and each of them opens a paragraph element.
\<close>

theorem empty_document_gets_one_paragraph:
  assumes "skeleton_frame original = Inr (xml_header_and_open, first_paragraph)"
  shows
    "(fst (build_title_block_xml title subtitle author date_str counter) = []
       \<and> fst (convert_blocks blocks 0 counter) = [] \<longrightarrow>
      build_section_xml original blocks title subtitle author date_str counter =
        Inr (xml_header_and_open @ first_paragraph @
             paragraph_markup (str_nat (counter + 1)) 0 0 0 []
               (compute_lineseg_xml [] 1000 160 42520) @
             ascii ''</hs:sec>'',
             counter + 1))
     \<and> (\<exists>title_block content_parts counter1.
           build_section_xml original blocks title subtitle author date_str counter =
             Inr (xml_header_and_open @ first_paragraph @ concat title_block @
                  concat content_parts @ ascii ''</hs:sec>'',
                  counter1)
           \<and> title_block @ content_parts \<noteq> []
           \<and> (\<forall>e \<in> set (title_block @ content_parts). prefix paragraph_open e))"
proof -
  obtain tb cp c where se:
    "section_elements blocks title subtitle author date_str counter = (tb, cp, c)"
    by (cases "section_elements blocks title subtitle author date_str counter") auto
  have general: "build_section_xml original blocks title subtitle author date_str counter =
             Inr (xml_header_and_open @ first_paragraph @ concat tb @ concat cp @
                  ascii ''</hs:sec>'', c)"
    by (simp add: build_section_xml_def assms se)
  have ne: "tb @ cp \<noteq> []"
    using se by (rule section_elements_nonempty)
  have op: "\<forall>e \<in> set (tb @ cp). prefix paragraph_open e"
    using se by (rule section_elements_open)
  have empty: "build_section_xml original blocks title subtitle author date_str counter =
        Inr (xml_header_and_open @ first_paragraph @
             paragraph_markup (str_nat (counter + 1)) 0 0 0 []
               (compute_lineseg_xml [] 1000 160 42520) @
             ascii ''</hs:sec>'',
             counter + 1)"
    if "fst (build_title_block_xml title subtitle author date_str counter) = []"
      and "fst (convert_blocks blocks 0 counter) = []"
    using section_elements_empty [OF that]
    by (simp add: build_section_xml_def assms)
  show ?thesis
    using general ne op empty by blast
qed

text \<open>
  The theorem of claim C10 at a small skeleton section, an empty block list and empty
  metadata, from the initial paragraph counter.
\<close>

theorem empty_document_gets_one_paragraph_witness:
  \<open>build_section_xml
     (ascii ''<?xml version="1.0"?><hs:sec xmlns:hs="x"><hp:p id="0"><hp:run/>'' @
      ascii ''</hp:p></hs:sec>'')
     [] [] [] [] [] initial_para_id_counter =
   Inr (ascii ''<?xml version="1.0"?><hs:sec xmlns:hs="x"><hp:p id="0"><hp:run/>'' @
      ascii ''</hp:p><hp:p id="3121190099" paraPrIDRef="0" styleIDRef="0" page'' @
      ascii ''Break="0" columnBreak="0" merged="0"><hp:run charPrIDRef="0"><hp'' @
      ascii '':t></hp:t></hp:run><hp:linesegarray><hp:lineseg textpos="0" vert'' @
      ascii ''pos="0" vertsize="1000" textheight="1000" baseline="850" spacing'' @
      ascii ''="600" horzpos="0" horzsize="42520" flags="393216"/></hp:lineseg'' @
      ascii ''array></hp:p></hs:sec>'',
        3121190099)\<close>
proof -
  have frame: \<open>skeleton_frame
     (ascii ''<?xml version="1.0"?><hs:sec xmlns:hs="x"><hp:p id="0"><hp:run/>'' @
      ascii ''</hp:p></hs:sec>'') =
     Inr (ascii ''<?xml version="1.0"?><hs:sec xmlns:hs="x">'',
          ascii ''<hp:p id="0"><hp:run/></hp:p>'')\<close>
    by (simp add: skeleton_frame_def str_index_def ascii_def)
  have tb: "fst (build_title_block_xml [] [] [] [] initial_para_id_counter) = []"
    by (simp add: build_title_block_xml_def append_paragraph_if_def)
  have cb: "fst (convert_blocks [] 0 initial_para_id_counter) = []"
    by simp
  have seg: \<open>compute_lineseg_xml [] 1000 160 42520 =
      ascii ''<hp:linesegarray><hp:lineseg textpos="0" vertpos="0" vertsize="1000"'' @
      ascii '' textheight="1000" baseline="850" spacing="600" horzpos="0"'' @
      ascii '' horzsize="42520" flags="393216"/></hp:linesegarray>''\<close>
    by (simp add: compute_lineseg_xml_def compute_linesegs_def
        lineseg_xml_def trunc_div_def str_int_def str_nat.simps ascii_def Let_def)
  show ?thesis
    using empty_document_gets_one_paragraph [OF frame, of "[]" "[]" "[]" "[]"
        initial_para_id_counter "[]"] tb cb
    by (simp add: initial_para_id_counter_def seg paragraph_markup_def str_int_def
        str_nat.simps ascii_def)
qed

section \<open>Properties of the package assembly\<close>

lemma zip_read_member:
  "item \<in> set z \<Longrightarrow> \<exists>d. zip_read z (filename item) = Some d"
proof -
  assume "item \<in> set z"
  then have "filter (\<lambda>p. filename p = filename item) z \<noteq> []"
    by (auto simp: filter_empty_conv)
  then show ?thesis
    by (auto simp: zip_read_def split: list.splits)
qed

lemma write_parts_eq:
  assumes "utf8_encode section_xml = Inr sb" "utf8_encode updated_hpf = Inr hb"
    "utf8_encode updated_header = Inr xb"
  shows "set items \<subseteq> set src_zip \<Longrightarrow>
    write_parts src_zip items section_xml updated_hpf updated_header =
      Inr (map (\<lambda>item. item\<lparr>content := written_bytes src_zip sb hb xb (filename item)\<rparr>) items)"
proof (induction items)
  case Nil
  then show ?case by simp
next
  case (Cons item items)
  then have "item \<in> set src_zip" by simp
  then obtain d where d: "zip_read src_zip (filename item) = Some d"
    using zip_read_member by blast
  have pb: "part_bytes src_zip (filename item) section_xml updated_hpf updated_header =
      Inr (written_bytes src_zip sb hb xb (filename item))"
    by (simp add: part_bytes_def written_bytes_def assms d)
  show ?case using Cons by (simp add: pb)
qed

lemma zip_read_map_content:
  "zip_read (map (\<lambda>item. item\<lparr>content := f (filename item)\<rparr>) z) name =
     map_option (\<lambda>_. f name) (zip_read z name)"
proof -
  have flt: "filter (\<lambda>p. filename p = name) (map (\<lambda>item. item\<lparr>content := f (filename item)\<rparr>) z) =
      map (\<lambda>item. item\<lparr>content := f name\<rparr>) (filter (\<lambda>p. filename p = name) z)"
    by (induction z) auto
  show ?thesis
    unfolding zip_read_def flt
    by (cases "filter (\<lambda>p. filename p = name) z") (simp_all add: last_map)
qed

lemma zip_read_distinct:
  "distinct (map filename z) \<Longrightarrow> i < length z \<Longrightarrow>
   zip_read z (filename (z ! i)) = Some (content (z ! i))"
proof (induction z arbitrary: i)
  case Nil
  then show ?case by simp
next
  case (Cons p z)
  show ?case
  proof (cases i)
    case 0
    have "filter (\<lambda>q. filename q = filename p) z = []"
      using Cons.prems(1) by (auto simp: filter_empty_conv image_iff)
    then show ?thesis using 0 by (simp add: zip_read_def)
  next
    case (Suc j)
    then have j: "j < length z" using Cons.prems(2) by simp
    have ne: "filename p \<noteq> filename (z ! j)"
      using Cons.prems(1) j by auto
    have "zip_read (p # z) (filename (z ! j)) = zip_read z (filename (z ! j))"
      using ne by (simp add: zip_read_def)
    then show ?thesis using Suc Cons.IH [OF _ j] Cons.prems(1) by simp
  qed
qed


text \<open>
  Claim C6. When the three fresh texts can be encoded, the assembler returns an output
  archive with the part names and the other metadata of the skeleton, in the same
  order. Read by name, every part other than the section, manifest and style-catalog
  parts has exactly the bytes it has in the skeleton, and each of those three parts, if
  the skeleton has it, has the encoded fresh text. When the part names of the skeleton
  are distinct, every written part other than those three is the skeleton's part itself.
\<close>

theorem repackage_copies_other_parts:
  assumes "utf8_encode section_xml = Inr sb" and "utf8_encode updated_hpf = Inr hb"
    and "utf8_encode updated_header = Inr xb"
  shows "\<exists>dst. repackage src_zip section_xml updated_hpf updated_header = Inr dst
     \<and> map filename dst = map filename src_zip
     \<and> map zip_info dst = map zip_info src_zip
     \<and> (\<forall>name. zip_read dst name =
           (if name = SECTION_PART then map_option (\<lambda>_. sb) (zip_read src_zip name)
            else if name = HPF_PART then map_option (\<lambda>_. hb) (zip_read src_zip name)
            else if name = HEADER_PART then map_option (\<lambda>_. xb) (zip_read src_zip name)
            else zip_read src_zip name))
     \<and> (distinct (map filename src_zip) \<longrightarrow>
          (\<forall>i < length src_zip.
             dst ! i =
               (if filename (src_zip ! i) = SECTION_PART then (src_zip ! i)\<lparr>content := sb\<rparr>
                else if filename (src_zip ! i) = HPF_PART then (src_zip ! i)\<lparr>content := hb\<rparr>
                else if filename (src_zip ! i) = HEADER_PART then (src_zip ! i)\<lparr>content := xb\<rparr>
                else src_zip ! i)))"
proof -
  define dst where
    "dst = map (\<lambda>item. item\<lparr>content := written_bytes src_zip sb hb xb (filename item)\<rparr>) src_zip"
  have r: "repackage src_zip section_xml updated_hpf updated_header = Inr dst"
    unfolding repackage_def dst_def
    by (rule write_parts_eq [OF assms]) simp
  have names: "map filename dst = map filename src_zip"
    by (simp add: dst_def o_def)
  have infos: "map zip_info dst = map zip_info src_zip"
    by (simp add: dst_def o_def)
  have by_name: "zip_read dst name =
           (if name = SECTION_PART then map_option (\<lambda>_. sb) (zip_read src_zip name)
            else if name = HPF_PART then map_option (\<lambda>_. hb) (zip_read src_zip name)
            else if name = HEADER_PART then map_option (\<lambda>_. xb) (zip_read src_zip name)
            else zip_read src_zip name)" for name
    unfolding dst_def zip_read_map_content
    by (cases "zip_read src_zip name") (auto simp: written_bytes_def)
  have entry: "dst ! i =
               (if filename (src_zip ! i) = SECTION_PART then (src_zip ! i)\<lparr>content := sb\<rparr>
                else if filename (src_zip ! i) = HPF_PART then (src_zip ! i)\<lparr>content := hb\<rparr>
                else if filename (src_zip ! i) = HEADER_PART then (src_zip ! i)\<lparr>content := xb\<rparr>
                else src_zip ! i)"
    if "distinct (map filename src_zip)" "i < length src_zip" for i
    using that zip_read_distinct [OF that]
    by (simp add: dst_def written_bytes_def)
  show ?thesis
    using r names infos by_name entry by blast
qed

text \<open>
  The theorem of claim C6 at a skeleton of five parts (the second field stands for the
  compression method), with a fresh section text that holds the code point U+D55C.
\<close>

theorem repackage_copies_other_parts_witness:
  "repackage
     [\<lparr>filename = ascii ''mimetype'', zip_info = (0::nat), content = [104, 119, 112]\<rparr>,
      \<lparr>filename = ascii ''Contents/header.xml'', zip_info = 8, content = [60, 104, 47, 62]\<rparr>,
      \<lparr>filename = ascii ''Contents/section0.xml'', zip_info = 8, content = [60, 115, 47, 62]\<rparr>,
      \<lparr>filename = ascii ''Contents/content.hpf'', zip_info = 8, content = [60, 112, 47, 62]\<rparr>,
      \<lparr>filename = ascii ''Preview/PrvText.txt'', zip_info = 8, content = [0, 255, 10]\<rparr>]
     [60, 115, 62, 0xD55C] [60, 112, 62] [60, 104, 62] =
   Inr
     [\<lparr>filename = ascii ''mimetype'', zip_info = 0, content = [104, 119, 112]\<rparr>,
      \<lparr>filename = ascii ''Contents/header.xml'', zip_info = 8, content = [60, 104, 62]\<rparr>,
      \<lparr>filename = ascii ''Contents/section0.xml'', zip_info = 8,
         content = [60, 115, 62, 0xED, 0x95, 0x9C]\<rparr>,
      \<lparr>filename = ascii ''Contents/content.hpf'', zip_info = 8, content = [60, 112, 62]\<rparr>,
      \<lparr>filename = ascii ''Preview/PrvText.txt'', zip_info = 8, content = [0, 255, 10]\<rparr>]"
proof -
  have e1: "utf8_encode [60, 115, 62, 0xD55C] = Inr [60, 115, 62, 0xED, 0x95, 0x9C]"
    by (simp add: utf8_char_def)
  have e2: "utf8_encode [60, 112, 62] = Inr [60, 112, 62]"
    by (simp add: utf8_char_def)
  have e3: "utf8_encode [60, 104, 62] = Inr [60, 104, 62]"
    by (simp add: utf8_char_def)
  show ?thesis
    using repackage_copies_other_parts [OF e1 e2 e3,
        of "[\<lparr>filename = ascii ''mimetype'', zip_info = (0::nat), content = [104, 119, 112]\<rparr>,
      \<lparr>filename = ascii ''Contents/header.xml'', zip_info = 8, content = [60, 104, 47, 62]\<rparr>,
      \<lparr>filename = ascii ''Contents/section0.xml'', zip_info = 8, content = [60, 115, 47, 62]\<rparr>,
      \<lparr>filename = ascii ''Contents/content.hpf'', zip_info = 8, content = [60, 112, 47, 62]\<rparr>,
      \<lparr>filename = ascii ''Preview/PrvText.txt'', zip_info = 8, content = [0, 255, 10]\<rparr>]"]
    by (simp add: repackage_def part_bytes_def zip_read_def utf8_char_def SECTION_PART_def
        HPF_PART_def HEADER_PART_def ascii_def)
qed

section \<open>Properties of the style catalog patch\<close>

lemmas header_defs = update_header_xml_def replace_fontfaces_def add_charpr_entries_def
  add_table_borderfill_def add_heading_spacing_def HEADING_SPACING_def re_sub_def str_replace_def
  m_fontface_def m_item_count_def m_prev_def m_prev_zero_def m_literal_def lit_def upto_char_def
  CP_OPEN_def CP_CLOSE_def BF_OPEN_def BF_CLOSE_def PARAPR_OPEN_def PREV_OPEN_def ITEMCNT_def
  QUOTE_def py_isspace_def str_int_def str_nat.simps ascii_def Let_def

text \<open>
  Claim C4. The heading spacing patch is to overwrite the spacing-before field only
  inside the paragraph-style record with the targeted id. On a catalog whose record 2
  holds the spacing-before value 100 and is followed by record 5 holding zero, the
  patch leaves record 2 as it is and writes 800, the value configured for record 2,
  into record 5: the lazy part of the pattern runs on past the end of record 2 to the
  next field that holds zero.
\<close>

theorem heading_spacing_reaches_next_record:
  \<open>update_header_xml alnum
     (ascii ''<hh:paraPr id="2"><hc:prev value="100"/></hh:paraPr>'' @
      ascii ''<hh:paraPr id="5"><hc:prev value="0"/></hh:paraPr>'') =
   ascii ''<hh:paraPr id="2"><hc:prev value="100"/></hh:paraPr>'' @
   ascii ''<hh:paraPr id="5"><hc:prev value="800"/></hh:paraPr>''\<close>
  by (simp add: header_defs)

lemma scan_sub_clean:
  assumes pre: "\<And>s r. m s = Some r \<Longrightarrow> prefix pat s"
  shows "clean pat X \<Longrightarrow> scan_sub m 0 (X @ R) = X @ scan_sub m 0 R"
proof (induction X)
  case Nil
  then show ?case by simp
next
  case (Cons c X)
  have "m ((c # X) @ R) = None"
  proof (rule ccontr)
    assume "m ((c # X) @ R) \<noteq> None"
    then have "prefix pat ((c # X) @ R)" using pre by blast
    then have "prefix pat (c # X) \<or> prefix (c # X) pat"
      by (metis prefix_append prefixI)
    then show False using Cons.prems by simp
  qed
  then show ?case using Cons by simp
qed

lemma clean_no_first: "pat \<noteq> [] \<Longrightarrow> hd pat \<notin> set X \<Longrightarrow> clean pat X"
  by (induction X) (auto simp: prefix_def neq_Nil_conv)

lemma scan_sub_skip: "scan_sub m (length a) (a @ b) = scan_sub m 0 b"
  by (induction a) simp_all

lemma m_literal_prefix: "m_literal old new s = Some r \<Longrightarrow> prefix old s"
  by (simp add: m_literal_def split: if_splits)

lemma m_item_count_prefix: "m_item_count opener old new s = Some r \<Longrightarrow> prefix opener s"
  by (simp add: m_item_count_def lit_def split: if_splits option.splits)

lemma m_prev_prefix: "m_prev i v s = Some r \<Longrightarrow> prefix PARAPR_OPEN s"
  by (simp add: m_prev_def lit_def split: if_splits option.splits)

lemma scan_literal_clean:
  "clean old X \<Longrightarrow>
   scan_sub (m_literal old new) 0 (X @ R) = X @ scan_sub (m_literal old new) 0 R"
  by (rule scan_sub_clean [where pat = old]) (auto dest: m_literal_prefix)

lemma scan_literal_hit:
  "old \<noteq> [] \<Longrightarrow>
   scan_sub (m_literal old new) 0 (old @ R) = new @ scan_sub (m_literal old new) 0 R"
proof -
  assume "old \<noteq> []"
  then obtain c cs where o: "old = c # cs" by (cases old) auto
  have "scan_sub (m_literal old new) 0 (old @ R) =
      new @ scan_sub (m_literal old new) (length cs) (cs @ R)"
    by (simp add: o m_literal_def)
  then show ?thesis by (simp add: scan_sub_skip)
qed

lemma scan_item_count_clean:
  "clean opener X \<Longrightarrow>
   scan_sub (m_item_count opener old new) 0 (X @ R) =
     X @ scan_sub (m_item_count opener old new) 0 R"
  by (rule scan_sub_clean [where pat = opener]) (auto dest: m_item_count_prefix)

lemma scan_prev_clean:
  "clean PARAPR_OPEN X \<Longrightarrow>
   scan_sub (m_prev i v) 0 (X @ R) = X @ scan_sub (m_prev i v) 0 R"
  by (rule scan_sub_clean [where pat = PARAPR_OPEN]) (auto dest: m_prev_prefix)

lemma takeWhile_space:
  "all_space ws \<Longrightarrow> takeWhile py_isspace (ws @ ITEMCNT @ r) = ws"
  by (induction ws) (auto simp: all_space_def ITEMCNT_def ascii_def py_isspace_def list_all_iff)

lemma takeWhile_space':
  "list_all py_isspace ws \<Longrightarrow> takeWhile py_isspace (ws @ ITEMCNT @ r) = ws"
  by (induction ws) (auto simp: ITEMCNT_def ascii_def py_isspace_def)

lemma dropWhile_space':
  "list_all py_isspace ws \<Longrightarrow> dropWhile py_isspace (ws @ ITEMCNT @ r) = ITEMCNT @ r"
  by (induction ws) (auto simp: ITEMCNT_def ascii_def py_isspace_def)

lemma digit_prefix:
  "all_digits c \<Longrightarrow> 48 \<le> d \<Longrightarrow> d \<le> 57 \<Longrightarrow>
   prefix ([d] @ QUOTE) (c @ QUOTE @ r) \<longleftrightarrow> c = [d]"
proof (cases c)
  case Nil
  assume "48 \<le> d"
  then show ?thesis using Nil by (simp add: QUOTE_def ascii_def)
next
  case (Cons a c')
  assume "all_digits c"
  then show ?thesis using Cons
    by (cases c') (auto simp: QUOTE_def ascii_def all_digits_def)
qed

lemma space_no_lt: "list_all py_isspace ws \<Longrightarrow> 60 \<notin> set ws"
  by (auto simp: list_all_iff py_isspace_def)

lemma digits_no_lt: "all_digits c \<Longrightarrow> 60 \<notin> set c"
  by (auto simp: all_digits_def list_all_iff)

lemma scan_item_count_open:
  assumes op: "opener = 60 # t" "60 \<notin> set t"
    and ws: "all_space ws" and c: "all_digits c" and d: "48 \<le> d" "d \<le> 57"
  shows "scan_sub (m_item_count opener [d] new) 0 (opener @ ws @ ITEMCNT @ c @ QUOTE @ R) =
     opener @ ws @ ITEMCNT @ (if c = [d] then new else c) @ QUOTE @
       scan_sub (m_item_count opener [d] new) 0 R"
proof -
  let ?m = "m_item_count opener [d] new"
  let ?s = "opener @ ws @ ITEMCNT @ c @ QUOTE @ R"
  have wsl: "list_all py_isspace ws" and wsn: "ws \<noteq> []"
    using ws by (simp_all add: all_space_def)
  have l1: "lit opener ?s = Some (ws @ ITEMCNT @ c @ QUOTE @ R)"
    by (simp add: lit_def)
  have l2: "lit (ITEMCNT @ d # QUOTE) (ITEMCNT @ c @ QUOTE @ R) =
      (if c = [d] then Some R else None)"
    using digit_prefix [OF c d, of R] by (auto simp: lit_def)
  have m0: "?m ?s = (if c = [d]
      then Some (opener @ ws @ ITEMCNT @ new @ QUOTE, length (opener @ ws @ ITEMCNT @ c @ QUOTE))
      else None)"
    unfolding m_item_count_def l1
    by (simp add: Let_def takeWhile_space' [OF wsl] dropWhile_space' [OF wsl] wsn l2)
  show ?thesis
  proof (cases "c = [d]")
    case True
    have "scan_sub ?m 0 ?s =
        (opener @ ws @ ITEMCNT @ new @ QUOTE) @
        scan_sub ?m (length (t @ ws @ ITEMCNT @ c @ QUOTE)) ((t @ ws @ ITEMCNT @ c @ QUOTE) @ R)"
      using m0 True by (simp add: op)
    then show ?thesis using True by (simp only: scan_sub_skip) simp
  next
    case False
    have none: "?m ?s = None" using m0 False by simp
    have nl: "60 \<notin> set (t @ ws @ ITEMCNT @ c @ QUOTE)"
      using op(2) space_no_lt [OF wsl] digits_no_lt [OF c]
      by (simp add: ITEMCNT_def QUOTE_def ascii_def)
    have cl: "clean opener (t @ ws @ ITEMCNT @ c @ QUOTE)"
      by (rule clean_no_first) (use nl op in simp_all)
    have "scan_sub ?m 0 ?s = 60 # scan_sub ?m 0 ((t @ ws @ ITEMCNT @ c @ QUOTE) @ R)"
      using none by (simp add: op)
    also have "\<dots> = 60 # (t @ ws @ ITEMCNT @ c @ QUOTE) @ scan_sub ?m 0 R"
      using cl by (simp only: scan_item_count_clean)
    finally show ?thesis using False by (simp add: op)
  qed
qed

lemma clean_append: "clean pat X \<Longrightarrow> clean pat Y \<Longrightarrow> clean pat (X @ Y)"
proof (induction X)
  case Nil
  then show ?case by simp
next
  case (Cons c X)
  have a: "\<not> prefix pat (c # X)" and b: "\<not> prefix (c # X) pat" and r: "clean pat X"
    using Cons.prems(1) by simp_all
  have "\<not> prefix pat ((c # X) @ Y)"
  proof
    assume "prefix pat ((c # X) @ Y)"
    then have "prefix pat (c # X) \<or> prefix (c # X) pat"
      by (metis prefix_append prefixI)
    then show False using a b by simp
  qed
  moreover have "\<not> prefix ((c # X) @ Y) pat"
    using b by (metis append_prefixD)
  ultimately show ?case using Cons.IH [OF r Cons.prems(2)] by simp
qed

lemma clean_str_int: "hd pat = 60 \<Longrightarrow> pat \<noteq> [] \<Longrightarrow> clean pat (str_int i)"
  by (rule clean_no_first) simp_all

lemma tag_heads:
  "hd CP_OPEN = 60" "CP_OPEN \<noteq> []" "hd CP_CLOSE = 60" "CP_CLOSE \<noteq> []"
  "hd BF_OPEN = 60" "BF_OPEN \<noteq> []" "hd BF_CLOSE = 60" "BF_CLOSE \<noteq> []"
  "hd PARAPR_OPEN = 60" "PARAPR_OPEN \<noteq> []"
  by (simp_all add: CP_OPEN_def CP_CLOSE_def BF_OPEN_def BF_CLOSE_def PARAPR_OPEN_def ascii_def)

lemma clean_charpr_cp_open: "clean CP_OPEN (make_charpr_xml i h b f)"
  unfolding make_charpr_xml_def Let_def
  by (intro clean_append clean_str_int tag_heads)
     (simp_all add: CP_OPEN_def ascii_def)

lemma clean_charpr:
  "clean CP_OPEN (make_charpr_xml i h b f)"
  "clean BF_OPEN (make_charpr_xml i h b f)"
  "clean BF_CLOSE (make_charpr_xml i h b f)"
  "clean PARAPR_OPEN (make_charpr_xml i h b f)"
  unfolding make_charpr_xml_def Let_def
  by (intro clean_append clean_str_int tag_heads;
      simp add: CP_OPEN_def BF_OPEN_def BF_CLOSE_def PARAPR_OPEN_def ascii_def)+

lemma clean_new_charpr:
  "clean CP_OPEN new_charpr" "clean BF_OPEN new_charpr"
  "clean BF_CLOSE new_charpr" "clean PARAPR_OPEN new_charpr"
  by (simp_all add: new_charpr_def HEADING_CHAR_PROPS_def clean_append clean_charpr)

lemma clean_borderfill:
  "clean BF_OPEN make_table_borderfill_xml"
  "clean PARAPR_OPEN make_table_borderfill_xml"
  unfolding make_table_borderfill_xml_def
  by (intro clean_append clean_str_int tag_heads;
      simp add: BF_OPEN_def PARAPR_OPEN_def ascii_def)+

lemma clean_tags:
  "clean CP_CLOSE CP_OPEN" "clean CP_CLOSE BF_OPEN" "clean CP_CLOSE BF_CLOSE"
  "clean CP_OPEN CP_CLOSE" "clean CP_OPEN BF_OPEN" "clean CP_OPEN BF_CLOSE"
  "clean BF_CLOSE CP_OPEN" "clean BF_CLOSE CP_CLOSE" "clean BF_CLOSE BF_OPEN"
  "clean BF_OPEN CP_OPEN" "clean BF_OPEN CP_CLOSE" "clean BF_OPEN BF_CLOSE"
  "clean PARAPR_OPEN CP_OPEN" "clean PARAPR_OPEN CP_CLOSE"
  "clean PARAPR_OPEN BF_OPEN" "clean PARAPR_OPEN BF_CLOSE"
  by (simp_all add: CP_OPEN_def CP_CLOSE_def BF_OPEN_def BF_CLOSE_def PARAPR_OPEN_def ascii_def)

lemma clean_attr:
  "hd pat = 60 \<Longrightarrow> pat \<noteq> [] \<Longrightarrow> clean pat ITEMCNT"
  "hd pat = 60 \<Longrightarrow> pat \<noteq> [] \<Longrightarrow> clean pat QUOTE"
  "hd pat = 60 \<Longrightarrow> pat \<noteq> [] \<Longrightarrow> all_space ws \<Longrightarrow> clean pat ws"
  "hd pat = 60 \<Longrightarrow> pat \<noteq> [] \<Longrightarrow> all_digits c \<Longrightarrow> clean pat c"
  by (rule clean_no_first;
      simp add: ITEMCNT_def QUOTE_def ascii_def space_no_lt digits_no_lt all_space_def)+

lemma open_shape:
  "CP_OPEN = 60 # tl CP_OPEN" "60 \<notin> set (tl CP_OPEN)"
  "BF_OPEN = 60 # tl BF_OPEN" "60 \<notin> set (tl BF_OPEN)"
  by (simp_all add: CP_OPEN_def BF_OPEN_def ascii_def)

lemma scan_cp_open:
  "all_space ws \<Longrightarrow> all_digits c \<Longrightarrow>
   scan_sub (m_item_count CP_OPEN (ascii ''7'') (ascii ''11'')) 0
     (CP_OPEN @ ws @ ITEMCNT @ c @ QUOTE @ R) =
   CP_OPEN @ ws @ ITEMCNT @ (if c = ascii ''7'' then ascii ''11'' else c) @ QUOTE @
     scan_sub (m_item_count CP_OPEN (ascii ''7'') (ascii ''11'')) 0 R"
  using scan_item_count_open [OF open_shape(1,2), of ws c 55 "ascii ''11''" R]
  by (simp add: ascii_def)

lemma scan_bf_open:
  "all_space ws \<Longrightarrow> all_digits c \<Longrightarrow>
   scan_sub (m_item_count BF_OPEN (ascii ''2'') (ascii ''3'')) 0
     (BF_OPEN @ ws @ ITEMCNT @ c @ QUOTE @ R) =
   BF_OPEN @ ws @ ITEMCNT @ (if c = ascii ''2'' then ascii ''3'' else c) @ QUOTE @
     scan_sub (m_item_count BF_OPEN (ascii ''2'') (ascii ''3'')) 0 R"
  using scan_item_count_open [OF open_shape(3,4), of ws c 50 "ascii ''3''" R]
  by (simp add: ascii_def)

lemma scan_literal_end: "clean old X \<Longrightarrow> scan_sub (m_literal old new) 0 X = X"
  using scan_literal_clean [where old = old and X = X and R = "[]" and new = new] by simp

lemma scan_item_count_end:
  "clean opener X \<Longrightarrow> scan_sub (m_item_count opener old new) 0 X = X"
  using scan_item_count_clean [where opener = opener and X = X and R = "[]" and old = old and new = new] by simp

lemma patch_shape:
  assumes P: "tags_clean P" and E: "tags_clean E" and B: "tags_clean B" and F: "tags_clean F"
    and S: "catalog_clean S"
    and ws1: "all_space ws1" and ws2: "all_space ws2"
    and c1: "all_digits c1" and c2: "all_digits c2"
  shows "add_heading_spacing (add_table_borderfill (add_charpr_entries
      (P @ CP_OPEN @ ws1 @ ITEMCNT @ c1 @ QUOTE @ E @ CP_CLOSE @ B @
       BF_OPEN @ ws2 @ ITEMCNT @ c2 @ QUOTE @ F @ BF_CLOSE @ S))) =
     P @ CP_OPEN @ ws1 @ ITEMCNT @ (if c1 = ascii ''7'' then ascii ''11'' else c1) @ QUOTE @
       E @ new_charpr @ CP_CLOSE @ B @
     BF_OPEN @ ws2 @ ITEMCNT @ (if c2 = ascii ''2'' then ascii ''3'' else c2) @ QUOTE @
       F @ make_table_borderfill_xml @ BF_CLOSE @ add_heading_spacing S"
proof -
  note th = tag_heads
  note regions =
    P [unfolded tags_clean_def catalog_clean_def] E [unfolded tags_clean_def catalog_clean_def]
    B [unfolded tags_clean_def catalog_clean_def] F [unfolded tags_clean_def catalog_clean_def]
    S [unfolded catalog_clean_def]
  note attrs = clean_attr(1,2) clean_attr(3) [OF _ _ ws1] clean_attr(3) [OF _ _ ws2]
    clean_attr(4) [OF _ _ c1] clean_attr(4) [OF _ _ c2]
  define c1' where "c1' = (if c1 = ascii ''7'' then ascii ''11'' else c1)"
  define c2' where "c2' = (if c2 = ascii ''2'' then ascii ''3'' else c2)"
  have c1': "all_digits c1'" using c1 by (simp add: c1'_def all_digits_def ascii_def)
  have c2': "all_digits c2'" using c2 by (simp add: c2'_def all_digits_def ascii_def)
  note attrs' = clean_attr(4) [OF _ _ c1'] clean_attr(4) [OF _ _ c2']
  have p1: "str_replace CP_CLOSE (new_charpr @ CP_CLOSE)
      (P @ CP_OPEN @ ws1 @ ITEMCNT @ c1 @ QUOTE @ E @ CP_CLOSE @ B @
       BF_OPEN @ ws2 @ ITEMCNT @ c2 @ QUOTE @ F @ BF_CLOSE @ S) =
      P @ CP_OPEN @ ws1 @ ITEMCNT @ c1 @ QUOTE @ E @ new_charpr @ CP_CLOSE @ B @
       BF_OPEN @ ws2 @ ITEMCNT @ c2 @ QUOTE @ F @ BF_CLOSE @ S"
    using regions
    by (simp add: str_replace_def re_sub_def scan_literal_clean scan_literal_hit
        scan_literal_end clean_tags attrs th)
  have p2: "re_sub (m_item_count CP_OPEN (ascii ''7'') (ascii ''11''))
      (P @ CP_OPEN @ ws1 @ ITEMCNT @ c1 @ QUOTE @ E @ new_charpr @ CP_CLOSE @ B @
       BF_OPEN @ ws2 @ ITEMCNT @ c2 @ QUOTE @ F @ BF_CLOSE @ S) =
      P @ CP_OPEN @ ws1 @ ITEMCNT @ c1' @ QUOTE @ E @ new_charpr @ CP_CLOSE @ B @
       BF_OPEN @ ws2 @ ITEMCNT @ c2 @ QUOTE @ F @ BF_CLOSE @ S"
    using regions
    by (simp add: re_sub_def scan_item_count_clean scan_cp_open [OF ws1 c1]
        scan_item_count_end clean_tags clean_new_charpr attrs th c1'_def)
  have p3: "str_replace BF_CLOSE (make_table_borderfill_xml @ BF_CLOSE)
      (P @ CP_OPEN @ ws1 @ ITEMCNT @ c1' @ QUOTE @ E @ new_charpr @ CP_CLOSE @ B @
       BF_OPEN @ ws2 @ ITEMCNT @ c2 @ QUOTE @ F @ BF_CLOSE @ S) =
      P @ CP_OPEN @ ws1 @ ITEMCNT @ c1' @ QUOTE @ E @ new_charpr @ CP_CLOSE @ B @
       BF_OPEN @ ws2 @ ITEMCNT @ c2 @ QUOTE @ F @ make_table_borderfill_xml @ BF_CLOSE @ S"
    using regions
    by (simp add: str_replace_def re_sub_def scan_literal_clean scan_literal_hit
        scan_literal_end clean_tags clean_new_charpr attrs attrs' th)
  have p4: "re_sub (m_item_count BF_OPEN (ascii ''2'') (ascii ''3''))
      (P @ CP_OPEN @ ws1 @ ITEMCNT @ c1' @ QUOTE @ E @ new_charpr @ CP_CLOSE @ B @
       BF_OPEN @ ws2 @ ITEMCNT @ c2 @ QUOTE @ F @ make_table_borderfill_xml @ BF_CLOSE @ S) =
      P @ CP_OPEN @ ws1 @ ITEMCNT @ c1' @ QUOTE @ E @ new_charpr @ CP_CLOSE @ B @
       BF_OPEN @ ws2 @ ITEMCNT @ c2' @ QUOTE @ F @ make_table_borderfill_xml @ BF_CLOSE @ S"
    using regions
    by (simp add: re_sub_def scan_item_count_clean scan_bf_open [OF ws2 c2]
        scan_item_count_end clean_tags clean_new_charpr clean_borderfill attrs attrs' th
        c2'_def)
  have p5: "re_sub (m_prev i v)
      (P @ CP_OPEN @ ws1 @ ITEMCNT @ c1' @ QUOTE @ E @ new_charpr @ CP_CLOSE @ B @
       BF_OPEN @ ws2 @ ITEMCNT @ c2' @ QUOTE @ F @ make_table_borderfill_xml @ BF_CLOSE @ T) =
      P @ CP_OPEN @ ws1 @ ITEMCNT @ c1' @ QUOTE @ E @ new_charpr @ CP_CLOSE @ B @
       BF_OPEN @ ws2 @ ITEMCNT @ c2' @ QUOTE @ F @ make_table_borderfill_xml @ BF_CLOSE @
       re_sub (m_prev i v) T" for i v T
    using regions
    by (simp add: re_sub_def scan_prev_clean clean_tags clean_new_charpr clean_borderfill
        attrs attrs' th)
  have "add_heading_spacing (add_table_borderfill (add_charpr_entries
      (P @ CP_OPEN @ ws1 @ ITEMCNT @ c1 @ QUOTE @ E @ CP_CLOSE @ B @
       BF_OPEN @ ws2 @ ITEMCNT @ c2 @ QUOTE @ F @ BF_CLOSE @ S))) =
     P @ CP_OPEN @ ws1 @ ITEMCNT @ c1' @ QUOTE @ E @ new_charpr @ CP_CLOSE @ B @
     BF_OPEN @ ws2 @ ITEMCNT @ c2' @ QUOTE @ F @ make_table_borderfill_xml @ BF_CLOSE @
       add_heading_spacing S"
    unfolding add_charpr_entries_def add_table_borderfill_def p1 p2 p3 p4
    unfolding add_heading_spacing_def HEADING_SPACING_def
    by (simp add: p5)
  then show ?thesis by (simp only: c1'_def c2'_def)
qed

lemma patch_shape_bf_first:
  assumes P: "tags_clean P" and E: "tags_clean E" and B: "tags_clean B" and F: "tags_clean F"
    and S: "catalog_clean S"
    and ws1: "all_space ws1" and ws2: "all_space ws2"
    and c1: "all_digits c1" and c2: "all_digits c2"
  shows "add_heading_spacing (add_table_borderfill (add_charpr_entries
      (P @ BF_OPEN @ ws2 @ ITEMCNT @ c2 @ QUOTE @ F @ BF_CLOSE @ B @
       CP_OPEN @ ws1 @ ITEMCNT @ c1 @ QUOTE @ E @ CP_CLOSE @ S))) =
     P @ BF_OPEN @ ws2 @ ITEMCNT @ (if c2 = ascii ''2'' then ascii ''3'' else c2) @ QUOTE @
       F @ make_table_borderfill_xml @ BF_CLOSE @ B @
     CP_OPEN @ ws1 @ ITEMCNT @ (if c1 = ascii ''7'' then ascii ''11'' else c1) @ QUOTE @
       E @ new_charpr @ CP_CLOSE @ add_heading_spacing S"
proof -
  note th = tag_heads
  note regions =
    P [unfolded tags_clean_def catalog_clean_def] E [unfolded tags_clean_def catalog_clean_def]
    B [unfolded tags_clean_def catalog_clean_def] F [unfolded tags_clean_def catalog_clean_def]
    S [unfolded catalog_clean_def]
  note attrs = clean_attr(1,2) clean_attr(3) [OF _ _ ws1] clean_attr(3) [OF _ _ ws2]
    clean_attr(4) [OF _ _ c1] clean_attr(4) [OF _ _ c2]
  define c1' where "c1' = (if c1 = ascii ''7'' then ascii ''11'' else c1)"
  define c2' where "c2' = (if c2 = ascii ''2'' then ascii ''3'' else c2)"
  have c1': "all_digits c1'" using c1 by (simp add: c1'_def all_digits_def ascii_def)
  have c2': "all_digits c2'" using c2 by (simp add: c2'_def all_digits_def ascii_def)
  note attrs' = clean_attr(4) [OF _ _ c1'] clean_attr(4) [OF _ _ c2']
  have p1: "str_replace CP_CLOSE (new_charpr @ CP_CLOSE)
      (P @ BF_OPEN @ ws2 @ ITEMCNT @ c2 @ QUOTE @ F @ BF_CLOSE @ B @
       CP_OPEN @ ws1 @ ITEMCNT @ c1 @ QUOTE @ E @ CP_CLOSE @ S) =
      P @ BF_OPEN @ ws2 @ ITEMCNT @ c2 @ QUOTE @ F @ BF_CLOSE @ B @
       CP_OPEN @ ws1 @ ITEMCNT @ c1 @ QUOTE @ E @ new_charpr @ CP_CLOSE @ S"
    using regions
    by (simp add: str_replace_def re_sub_def scan_literal_clean scan_literal_hit
        scan_literal_end clean_tags attrs th)
  have p2: "re_sub (m_item_count CP_OPEN (ascii ''7'') (ascii ''11''))
      (P @ BF_OPEN @ ws2 @ ITEMCNT @ c2 @ QUOTE @ F @ BF_CLOSE @ B @
       CP_OPEN @ ws1 @ ITEMCNT @ c1 @ QUOTE @ E @ new_charpr @ CP_CLOSE @ S) =
      P @ BF_OPEN @ ws2 @ ITEMCNT @ c2 @ QUOTE @ F @ BF_CLOSE @ B @
       CP_OPEN @ ws1 @ ITEMCNT @ c1' @ QUOTE @ E @ new_charpr @ CP_CLOSE @ S"
    using regions
    by (simp add: re_sub_def scan_item_count_clean scan_cp_open [OF ws1 c1]
        scan_item_count_end clean_tags clean_new_charpr attrs th c1'_def)
  have p3: "str_replace BF_CLOSE (make_table_borderfill_xml @ BF_CLOSE)
      (P @ BF_OPEN @ ws2 @ ITEMCNT @ c2 @ QUOTE @ F @ BF_CLOSE @ B @
       CP_OPEN @ ws1 @ ITEMCNT @ c1' @ QUOTE @ E @ new_charpr @ CP_CLOSE @ S) =
      P @ BF_OPEN @ ws2 @ ITEMCNT @ c2 @ QUOTE @ F @ make_table_borderfill_xml @ BF_CLOSE @ B @
       CP_OPEN @ ws1 @ ITEMCNT @ c1' @ QUOTE @ E @ new_charpr @ CP_CLOSE @ S"
    using regions
    by (simp add: str_replace_def re_sub_def scan_literal_clean scan_literal_hit
        scan_literal_end clean_tags clean_new_charpr attrs attrs' th)
  have p4: "re_sub (m_item_count BF_OPEN (ascii ''2'') (ascii ''3''))
      (P @ BF_OPEN @ ws2 @ ITEMCNT @ c2 @ QUOTE @ F @ make_table_borderfill_xml @ BF_CLOSE @ B @
       CP_OPEN @ ws1 @ ITEMCNT @ c1' @ QUOTE @ E @ new_charpr @ CP_CLOSE @ S) =
      P @ BF_OPEN @ ws2 @ ITEMCNT @ c2' @ QUOTE @ F @ make_table_borderfill_xml @ BF_CLOSE @ B @
       CP_OPEN @ ws1 @ ITEMCNT @ c1' @ QUOTE @ E @ new_charpr @ CP_CLOSE @ S"
    using regions
    by (simp add: re_sub_def scan_item_count_clean scan_bf_open [OF ws2 c2]
        scan_item_count_end clean_tags clean_new_charpr clean_borderfill attrs attrs' th
        c2'_def)
  have p5: "re_sub (m_prev i v)
      (P @ BF_OPEN @ ws2 @ ITEMCNT @ c2' @ QUOTE @ F @ make_table_borderfill_xml @ BF_CLOSE @ B @
       CP_OPEN @ ws1 @ ITEMCNT @ c1' @ QUOTE @ E @ new_charpr @ CP_CLOSE @ T) =
      P @ BF_OPEN @ ws2 @ ITEMCNT @ c2' @ QUOTE @ F @ make_table_borderfill_xml @ BF_CLOSE @ B @
       CP_OPEN @ ws1 @ ITEMCNT @ c1' @ QUOTE @ E @ new_charpr @ CP_CLOSE @
       re_sub (m_prev i v) T" for i v T
    using regions
    by (simp add: re_sub_def scan_prev_clean clean_tags clean_new_charpr clean_borderfill
        attrs attrs' th)
  have "add_heading_spacing (add_table_borderfill (add_charpr_entries
      (P @ BF_OPEN @ ws2 @ ITEMCNT @ c2 @ QUOTE @ F @ BF_CLOSE @ B @
       CP_OPEN @ ws1 @ ITEMCNT @ c1 @ QUOTE @ E @ CP_CLOSE @ S))) =
     P @ BF_OPEN @ ws2 @ ITEMCNT @ c2' @ QUOTE @ F @ make_table_borderfill_xml @ BF_CLOSE @ B @
     CP_OPEN @ ws1 @ ITEMCNT @ c1' @ QUOTE @ E @ new_charpr @ CP_CLOSE @
       add_heading_spacing S"
    unfolding add_charpr_entries_def add_table_borderfill_def p1 p2 p3 p4
    unfolding add_heading_spacing_def HEADING_SPACING_def
    by (simp add: p5)
  then show ?thesis by (simp only: c1'_def c2'_def)
qed

text \<open>
  Claim C3, amended. Take a catalog document that, after the font-face step, consists of
  a character-style catalog and a border-fill catalog, in either order, each with one
  opening tag whose first attribute is a decimal \<open>itemCnt\<close>, between texts \<open>P\<close>, \<open>B\<close> and
  \<open>S\<close>; the texts \<open>P\<close>, \<open>B\<close>, the pre-existing entries \<open>E\<close> and \<open>F\<close> hold none of the
  catalog tags and no \<open><hh:paraPr\<close>, and \<open>S\<close> holds none of the catalog tags. Then the
  patched document has the four character styles right before \<open></hh:charProperties>\<close>
  and the border fill right before \<open></hh:borderFillList>\<close>, after all pre-existing
  entries; \<open>P\<close>, \<open>E\<close>, \<open>B\<close> and \<open>F\<close> are unchanged; the declared count of character
  styles reads 11 if it read 7 and is unchanged otherwise, that of border fills reads 3
  if it read 2 and is unchanged otherwise; and \<open>S\<close> is changed by the heading spacing
  step alone.
\<close>

theorem style_entries_appended:
  assumes "tags_clean P" and "tags_clean E" and "tags_clean B" and "tags_clean F"
    and "catalog_clean S"
    and "all_space ws1" and "all_space ws2" and "all_digits c1" and "all_digits c2"
  shows
    "(replace_fontfaces alnum header_xml =
        P @ CP_OPEN @ ws1 @ ITEMCNT @ c1 @ QUOTE @ E @ CP_CLOSE @ B @
        BF_OPEN @ ws2 @ ITEMCNT @ c2 @ QUOTE @ F @ BF_CLOSE @ S \<longrightarrow>
      update_header_xml alnum header_xml =
        P @ CP_OPEN @ ws1 @ ITEMCNT @ (if c1 = ascii ''7'' then ascii ''11'' else c1) @ QUOTE @
          E @ new_charpr @ CP_CLOSE @ B @
        BF_OPEN @ ws2 @ ITEMCNT @ (if c2 = ascii ''2'' then ascii ''3'' else c2) @ QUOTE @
          F @ make_table_borderfill_xml @ BF_CLOSE @ add_heading_spacing S)
     \<and> (replace_fontfaces alnum header_xml =
        P @ BF_OPEN @ ws2 @ ITEMCNT @ c2 @ QUOTE @ F @ BF_CLOSE @ B @
        CP_OPEN @ ws1 @ ITEMCNT @ c1 @ QUOTE @ E @ CP_CLOSE @ S \<longrightarrow>
      update_header_xml alnum header_xml =
        P @ BF_OPEN @ ws2 @ ITEMCNT @ (if c2 = ascii ''2'' then ascii ''3'' else c2) @ QUOTE @
          F @ make_table_borderfill_xml @ BF_CLOSE @ B @
        CP_OPEN @ ws1 @ ITEMCNT @ (if c1 = ascii ''7'' then ascii ''11'' else c1) @ QUOTE @
          E @ new_charpr @ CP_CLOSE @ add_heading_spacing S)"
  using patch_shape [OF assms] patch_shape_bf_first [OF assms]
  by (simp add: update_header_xml_def)

lemmas tag_defs = CP_OPEN_def CP_CLOSE_def BF_OPEN_def BF_CLOSE_def PARAPR_OPEN_def
  ITEMCNT_def QUOTE_def

text \<open>
  Claim C3, as stated: after patching, the declared item count of each catalog is its
  count before patching plus the number of entries appended. The count is rewritten
  only when it reads 7 (character styles) or 2 (border fills). On a catalog that
  declares one character style the four new entries are appended and the attribute
  still reads 1, not 5.
\<close>

theorem count_not_updated_from_one:
  \<open>update_header_xml (\<lambda>c. False)
     (ascii ''<hh:charProperties itemCnt="1"><hh:charPr id="0"/></hh:charProperties>'' @
      ascii ''<hh:borderFillList itemCnt="2"><hh:borderFill id="1"/>'' @
      ascii ''<hh:borderFill id="2"/></hh:borderFillList>'') =
   ascii ''<hh:charProperties itemCnt="1"><hh:charPr id="0"/>'' @ new_charpr @
   ascii ''</hh:charProperties>'' @
   ascii ''<hh:borderFillList itemCnt="3"><hh:borderFill id="1"/>'' @
   ascii ''<hh:borderFill id="2"/>'' @ make_table_borderfill_xml @
   ascii ''</hh:borderFillList>''
   \<and> declared_count CP_OPEN
       (ascii ''<hh:charProperties itemCnt="1"><hh:charPr id="0"/></hh:charProperties>'' @
        ascii ''<hh:borderFillList itemCnt="2"><hh:borderFill id="1"/>'' @
        ascii ''<hh:borderFill id="2"/></hh:borderFillList>'') = Some 1
   \<and> declared_count CP_OPEN
       (update_header_xml (\<lambda>c. False)
         (ascii ''<hh:charProperties itemCnt="1"><hh:charPr id="0"/></hh:charProperties>'' @
          ascii ''<hh:borderFillList itemCnt="2"><hh:borderFill id="1"/>'' @
          ascii ''<hh:borderFill id="2"/></hh:borderFillList>'')) = Some 1\<close>
proof -
  define E where \<open>E = ascii ''><hh:charPr id="0"/>''\<close>
  define F where \<open>F = ascii ''><hh:borderFill id="1"/><hh:borderFill id="2"/>''\<close>
  define doc where \<open>doc =
      ascii ''<hh:charProperties itemCnt="1"><hh:charPr id="0"/></hh:charProperties>'' @
      ascii ''<hh:borderFillList itemCnt="2"><hh:borderFill id="1"/>'' @
      ascii ''<hh:borderFill id="2"/></hh:borderFillList>''\<close>
  have shape: "doc = [] @ CP_OPEN @ ascii '' '' @ ITEMCNT @ ascii ''1'' @ QUOTE @ E @ CP_CLOSE @ [] @
      BF_OPEN @ ascii '' '' @ ITEMCNT @ ascii ''2'' @ QUOTE @ F @ BF_CLOSE @ []"
    by (simp add: doc_def E_def F_def tag_defs ascii_def)
  have fonts: "replace_fontfaces (\<lambda>c. False) doc = doc"
    by (simp add: doc_def replace_fontfaces_def re_sub_def m_fontface_def lit_def ascii_def)
  have cl: "tags_clean []" "tags_clean E" "tags_clean F" "catalog_clean []"
    by (simp_all add: tags_clean_def catalog_clean_def E_def F_def tag_defs ascii_def)
  have sp: "all_space (ascii '' '')" "all_digits (ascii ''1'')" "all_digits (ascii ''2'')"
    by (simp_all add: all_space_def all_digits_def py_isspace_def ascii_def)
  have hs: "add_heading_spacing [] = []"
    by (simp add: add_heading_spacing_def HEADING_SPACING_def re_sub_def)
  have "update_header_xml (\<lambda>c. False) doc =
      [] @ CP_OPEN @ ascii '' '' @ ITEMCNT @
        (if ascii ''1'' = ascii ''7'' then ascii ''11'' else ascii ''1'') @ QUOTE @
        E @ new_charpr @ CP_CLOSE @ [] @
      BF_OPEN @ ascii '' '' @ ITEMCNT @
        (if ascii ''2'' = ascii ''2'' then ascii ''3'' else ascii ''2'') @ QUOTE @
        F @ make_table_borderfill_xml @ BF_CLOSE @ add_heading_spacing []"
    unfolding update_header_xml_def fonts
    by (subst shape) (rule patch_shape [OF cl(1) cl(2) cl(1) cl(3) cl(4) sp(1) sp(1) sp(2) sp(3)])
  then have res: \<open>update_header_xml (\<lambda>c. False) doc =
      ascii ''<hh:charProperties itemCnt="1"><hh:charPr id="0"/>'' @ new_charpr @
      ascii ''</hh:charProperties>'' @
      ascii ''<hh:borderFillList itemCnt="3"><hh:borderFill id="1"/>'' @
      ascii ''<hh:borderFill id="2"/>'' @ make_table_borderfill_xml @
      ascii ''</hh:borderFillList>''\<close>
    by (simp add: hs E_def F_def tag_defs ascii_def)
  have pre: "declared_count CP_OPEN doc = Some 1"
    by (simp add: doc_def declared_count_def lit_def tag_defs py_isspace_def ascii_def)
  have post: "declared_count CP_OPEN (update_header_xml (\<lambda>c. False) doc) = Some 1"
    unfolding res
    by (simp add: declared_count_def lit_def tag_defs py_isspace_def ascii_def)
  show ?thesis
    using res pre post unfolding doc_def by simp
qed

text \<open>
  The theorem of claim C3 at a small catalog document that declares 7 character styles
  and 2 border fills and has one paragraph style.
\<close>

theorem style_entries_appended_witness:
  \<open>update_header_xml (\<lambda>c. False)
     (ascii ''<hh:head><hh:charProperties itemCnt="7"><hh:charPr id="0"/></hh:charProperties>'' @
      ascii ''<hh:borderFillList itemCnt="2"><hh:borderFill id="1"/></hh:borderFillList>'' @
      ascii ''<hh:paraPr id="2"><hc:prev value="0"/></hh:paraPr>'') =
   ascii ''<hh:head><hh:charProperties itemCnt="11"><hh:charPr id="0"/>'' @ new_charpr @
   ascii ''</hh:charProperties>'' @
   ascii ''<hh:borderFillList itemCnt="3"><hh:borderFill id="1"/>'' @
   make_table_borderfill_xml @ ascii ''</hh:borderFillList>'' @
   ascii ''<hh:paraPr id="2"><hc:prev value="800"/></hh:paraPr>''\<close>
proof -
  define P where \<open>P = ascii ''<hh:head>''\<close>
  define E where \<open>E = ascii ''><hh:charPr id="0"/>''\<close>
  define F where \<open>F = ascii ''><hh:borderFill id="1"/>''\<close>
  define S where \<open>S = ascii ''<hh:paraPr id="2"><hc:prev value="0"/></hh:paraPr>''\<close>
  define doc where \<open>doc =
      ascii ''<hh:head><hh:charProperties itemCnt="7"><hh:charPr id="0"/></hh:charProperties>'' @
      ascii ''<hh:borderFillList itemCnt="2"><hh:borderFill id="1"/></hh:borderFillList>'' @
      ascii ''<hh:paraPr id="2"><hc:prev value="0"/></hh:paraPr>''\<close>
  have shape: "doc = P @ CP_OPEN @ ascii '' '' @ ITEMCNT @ ascii ''7'' @ QUOTE @ E @ CP_CLOSE @ [] @
      BF_OPEN @ ascii '' '' @ ITEMCNT @ ascii ''2'' @ QUOTE @ F @ BF_CLOSE @ S"
    by (simp add: doc_def P_def E_def F_def S_def tag_defs ascii_def)
  have fonts: "replace_fontfaces (\<lambda>c. False) doc = doc"
    by (simp add: doc_def replace_fontfaces_def re_sub_def m_fontface_def lit_def ascii_def)
  have cl: "tags_clean P" "tags_clean E" "tags_clean []" "tags_clean F" "catalog_clean S"
    by (simp_all add: tags_clean_def catalog_clean_def P_def E_def F_def S_def tag_defs ascii_def)
  have sp: "all_space (ascii '' '')" "all_digits (ascii ''7'')" "all_digits (ascii ''2'')"
    by (simp_all add: all_space_def all_digits_def py_isspace_def ascii_def)
  have hs: \<open>add_heading_spacing S = ascii ''<hh:paraPr id="2"><hc:prev value="800"/></hh:paraPr>''\<close>
    by (simp add: S_def header_defs)
  have "update_header_xml (\<lambda>c. False) doc =
      P @ CP_OPEN @ ascii '' '' @ ITEMCNT @
        (if ascii ''7'' = ascii ''7'' then ascii ''11'' else ascii ''7'') @ QUOTE @
        E @ new_charpr @ CP_CLOSE @ [] @
      BF_OPEN @ ascii '' '' @ ITEMCNT @
        (if ascii ''2'' = ascii ''2'' then ascii ''3'' else ascii ''2'') @ QUOTE @
        F @ make_table_borderfill_xml @ BF_CLOSE @ add_heading_spacing S"
    using style_entries_appended [OF cl sp(1) sp(1) sp(2) sp(3), of "\<lambda>c. False" doc]
      fonts shape by simp
  then show ?thesis
    unfolding doc_def
    by (simp add: hs P_def E_def F_def tag_defs ascii_def)
qed

end
